theory Spec2Isabelle
  imports Complex_Main "HOL-Library.AList" "HOL-Library.Char_ord" "HOL-Library.List_Lexorder"
begin

text \<open>
  A model of the migration service's core and the properties established of it: the
  sanitizer, the chunked transactional loader over the store client, the paginated
  source reader, the reconciliation engine with its cache, and the linking step of the
  appointments migration. Every function of the source is a definition of the same name;
  what lies outside the repository (the MySQL server, the source API, the oracle) is a
  parameter, quantified over in the theorems.
\<close>

section \<open>JavaScript values and records\<close>

text \<open>
  The migration code moves plain JavaScript data: records fetched from the source API,
  rows bound for MySQL, and the JSON answer of the reconciliation oracle. A value is
  modelled by \<open>jsval\<close>; an object is the list of its own enumerable properties in
  enumeration order, with pairwise distinct names (\<open>wf_obj\<close>), its prototype being
  \<open>Object.prototype\<close>. Numbers are the integers (identifiers, counts and offsets are the
  only numbers the verified code computes with).
\<close>

datatype jsval =
    JUndefined
  | JNull
  | JBool bool
  | JNum int
  | JStr string
  | JArr "jsval list"
  | JObj "(string \<times> jsval) list"

type_synonym jsobj = "(string \<times> jsval) list"


text \<open>
  \<open>obj[key]\<close> for a key that is an own property of the record or not a property at all:
  the property's value, \<open>undefined\<close> when absent.
\<close>

definition get_prop :: "jsobj \<Rightarrow> string \<Rightarrow> jsval" where
  "get_prop obj key = (case map_of obj key of None \<Rightarrow> JUndefined | Some v \<Rightarrow> v)"

text \<open>\<open>Object.keys(obj)\<close>.\<close>

definition Object_keys :: "jsobj \<Rightarrow> string list" where
  "Object_keys obj = map fst obj"

text \<open>
  \<open>obj.hasOwnProperty(key)\<close>. The method is looked up on the record first: a record with
  a field of its own named \<open>hasOwnProperty\<close> offers that field's value, which is data and
  cannot be called, and the call throws a \<open>TypeError\<close>. Otherwise the method inherited
  from \<open>Object.prototype\<close> answers.
\<close>

definition hasOwnProperty :: "jsobj \<Rightarrow> string \<Rightarrow> string + bool" where
  "hasOwnProperty obj key =
     (case map_of obj ''hasOwnProperty'' of
        Some v \<Rightarrow> Inl ''obj.hasOwnProperty is not a function''
      | None \<Rightarrow> Inr (key \<in> set (Object_keys obj)))"

text \<open>
  \<open>result[key] = v\<close> on an object created by \<open>{}\<close>: the property is replaced in place or
  appended (\<open>AList.update\<close>). The name \<open>__proto__\<close> is the exception: the assignment
  reaches the setter of \<open>Object.prototype\<close> and gives the object no property of its own
  (it replaces the prototype of the object when the value is an object or \<open>null\<close>, an
  effect on later reads of inherited properties that lists of own properties do not
  record; the theorems on the sanitizer are about records without such a field).
\<close>

definition set_prop :: "jsobj \<Rightarrow> string \<Rightarrow> jsval \<Rightarrow> jsobj" where
  "set_prop obj key v = (if key = ''__proto__'' then obj else AList.update key v obj)"


section \<open>Sanitizer (utils/validators.js)\<close>

text \<open>
  \<open>convertUndefinedToNull\<close> starts from the empty object and, for every key of \<open>obj\<close>
  that passes \<open>obj.hasOwnProperty(key)\<close>, assigns
  \<open>result[key] = obj[key] === undefined ? null : obj[key]\<close>. It returns the result, or
  the message of the error thrown by the call of \<open>hasOwnProperty\<close>.
\<close>

fun convertUndefinedToNull_loop :: "jsobj \<Rightarrow> string list \<Rightarrow> jsobj \<Rightarrow> string + jsobj" where
  "convertUndefinedToNull_loop obj [] result = Inr result"
| "convertUndefinedToNull_loop obj (key # keys) result =
     (case hasOwnProperty obj key of
        Inl e \<Rightarrow> Inl e
      | Inr own \<Rightarrow>
          convertUndefinedToNull_loop obj keys
            (if own
             then set_prop result key
                    (if get_prop obj key = JUndefined then JNull else get_prop obj key)
             else result))"

definition convertUndefinedToNull :: "jsobj \<Rightarrow> string + jsobj" where
  "convertUndefinedToNull obj = convertUndefinedToNull_loop obj (Object_keys obj) []"

text \<open>
  \<open>findUndefinedFields\<close>: the keys passing
  \<open>obj.hasOwnProperty(key) && obj[key] === undefined\<close>, in order.
\<close>

fun findUndefinedFields_loop :: "jsobj \<Rightarrow> string list \<Rightarrow> string list \<Rightarrow> string + string list" where
  "findUndefinedFields_loop obj [] undefinedFields = Inr undefinedFields"
| "findUndefinedFields_loop obj (key # keys) undefinedFields =
     (case hasOwnProperty obj key of
        Inl e \<Rightarrow> Inl e
      | Inr own \<Rightarrow>
          findUndefinedFields_loop obj keys
            (if own \<and> get_prop obj key = JUndefined
             then undefinedFields @ [key] else undefinedFields))"

definition findUndefinedFields :: "jsobj \<Rightarrow> string + string list" where
  "findUndefinedFields obj = findUndefinedFields_loop obj (Object_keys obj) []"

text \<open>
  What the sanitizer prints with \<open>console.warn\<close>: the undefined fields of the record at
  an index (in \<open>findUndefinedFields\<close>) and the missing required fields of that record (in
  \<open>sanitizeRecords\<close>).
\<close>

datatype console_warning =
    UndefinedFieldsWarning nat "string list"
  | MissingRequiredWarning nat "string list"

text \<open>
  The function mapped over the records by \<open>sanitizeRecords\<close>: the sanitized record or the
  message of the error thrown on the way, and the warnings printed. A required field is
  missing when \<open>sanitized[field] === null || sanitized[field] === ''\<close>; a field that the
  sanitized record does not have reads as \<open>undefined\<close> (or, under a name inherited from
  \<open>Object.prototype\<close>, as a function or an object), which is neither.
\<close>

definition sanitizeRecord ::
    "string list \<Rightarrow> nat \<Rightarrow> jsobj \<Rightarrow> (string + jsobj) \<times> console_warning list" where
  "sanitizeRecord requiredFields index record =
     (case findUndefinedFields record of
        Inl e \<Rightarrow> (Inl e, [])
      | Inr undefinedFields \<Rightarrow>
          (let w1 = (if length undefinedFields > 0
                     then [UndefinedFieldsWarning index undefinedFields] else [])
           in case convertUndefinedToNull record of
                Inl e \<Rightarrow> (Inl e, w1)
              | Inr sanitized \<Rightarrow>
                  (let w2 =
                         (if length requiredFields > 0
                          then (let missingFields =
                                      filter (\<lambda>field. get_prop sanitized field = JNull
                                                        \<or> get_prop sanitized field = JStr [])
                                             requiredFields
                                in if length missingFields > 0
                                   then [MissingRequiredWarning index missingFields] else [])
                          else [])
                   in (Inr sanitized, w1 @ w2))))"

text \<open>
  \<open>records.map((record, index) => ...)\<close>, from the index of the first record of the list:
  an error thrown for one record ends the loop.
\<close>

fun sanitizeRecords_from ::
    "string list \<Rightarrow> nat \<Rightarrow> jsobj list \<Rightarrow> (string + jsobj list) \<times> console_warning list" where
  "sanitizeRecords_from requiredFields index [] = (Inr [], [])"
| "sanitizeRecords_from requiredFields index (record # records) =
     (case sanitizeRecord requiredFields index record of
        (Inl e, w) \<Rightarrow> (Inl e, w)
      | (Inr sanitized, w) \<Rightarrow>
          (case sanitizeRecords_from requiredFields (Suc index) records of
             (Inl e, ws) \<Rightarrow> (Inl e, w @ ws)
           | (Inr rest, ws) \<Rightarrow> (Inr (sanitized # rest), w @ ws)))"

definition sanitizeRecords ::
    "jsobj list \<Rightarrow> string list \<Rightarrow> (string + jsobj list) \<times> console_warning list" where
  "sanitizeRecords records requiredFields = sanitizeRecords_from requiredFields 0 records"

section \<open>Store client (config/database.js)\<close>

text \<open>
  The MySQL server and the connection pool are outside the repository. They are modelled
  by the operations the code issues, in order (\<open>oplog\<close>), and by a small transactional
  state: the statements made durable by a commit (\<open>committed\<close>), the statements executed
  inside the open transaction (\<open>pending\<close>), and the number of connections taken from the
  pool and not yet given back (\<open>leased\<close>). An operation either fails with an error and
  leaves the data untouched, or succeeds and has its effect. Which operations fail is
  decided by a \<open>fault_plan\<close>, an arbitrary function of the store so far and the
  operation: every theorem below holds for every plan.
\<close>

record insert_query =
  q_table :: string
  q_columns :: "string list"
  q_rows :: nat

record db_error =
  err_message :: string
  err_code :: "string option"

datatype store_op =
    GetConnection
  | BeginTransaction
  | Execute insert_query "jsval list"
  | Commit
  | Rollback
  | Release

record store =
  committed :: "(insert_query \<times> jsval list) list"
  pending :: "(insert_query \<times> jsval list) list"
  leased :: nat
  oplog :: "store_op list"

type_synonym fault_plan = "store \<Rightarrow> store_op \<Rightarrow> db_error option"

definition store_call ::
    "fault_plan \<Rightarrow> store \<Rightarrow> store_op \<Rightarrow> (store \<Rightarrow> store) \<Rightarrow> (db_error + unit) \<times> store" where
  "store_call flt st opn effect =
     (let st1 = st\<lparr>oplog := oplog st @ [opn]\<rparr>
      in case flt st opn of
           Some e \<Rightarrow> (Inl e, st1)
         | None \<Rightarrow> (Inr (), effect st1))"

definition getConnection :: "fault_plan \<Rightarrow> store \<Rightarrow> (db_error + unit) \<times> store" where
  "getConnection flt st = store_call flt st GetConnection (\<lambda>s. s\<lparr>leased := leased s + 1\<rparr>)"

definition beginTransaction :: "fault_plan \<Rightarrow> store \<Rightarrow> (db_error + unit) \<times> store" where
  "beginTransaction flt st = store_call flt st BeginTransaction (\<lambda>s. s\<lparr>pending := []\<rparr>)"

definition execute ::
    "fault_plan \<Rightarrow> insert_query \<Rightarrow> jsval list \<Rightarrow> store \<Rightarrow> (db_error + unit) \<times> store" where
  "execute flt q vals st =
     store_call flt st (Execute q vals) (\<lambda>s. s\<lparr>pending := pending s @ [(q, vals)]\<rparr>)"

definition commit :: "fault_plan \<Rightarrow> store \<Rightarrow> (db_error + unit) \<times> store" where
  "commit flt st =
     store_call flt st Commit (\<lambda>s. s\<lparr>committed := committed s @ pending s, pending := []\<rparr>)"

definition rollback :: "fault_plan \<Rightarrow> store \<Rightarrow> (db_error + unit) \<times> store" where
  "rollback flt st = store_call flt st Rollback (\<lambda>s. s\<lparr>pending := []\<rparr>)"

text \<open>\<open>connection.release()\<close> is synchronous and hands the connection back to the pool.\<close>

definition release :: "store \<Rightarrow> store" where
  "release st = st\<lparr>oplog := oplog st @ [Release], leased := leased st - 1\<rparr>"

text \<open>
  \<open>transaction(callback)\<close>: the connection is acquired outside the \<open>try\<close>, so a failed
  acquisition throws at once. Inside, \<open>beginTransaction\<close>, the callback and \<open>commit\<close> run
  in sequence; the first error jumps to the \<open>catch\<close>, which rolls back and rethrows (an
  error of the rollback itself replaces the original one); the \<open>finally\<close> releases the
  connection on every path.
\<close>

definition transaction ::
    "fault_plan \<Rightarrow> store \<Rightarrow> (store \<Rightarrow> (db_error + 'a) \<times> store) \<Rightarrow> (db_error + 'a) \<times> store" where
  "transaction flt st callback =
     (case getConnection flt st of
        (Inl e, st1) \<Rightarrow> (Inl e, st1)
      | (Inr _, st1) \<Rightarrow>
          (let tried =
                 (case beginTransaction flt st1 of
                    (Inl e, st2) \<Rightarrow> (Inl e, st2)
                  | (Inr _, st2) \<Rightarrow>
                      (case callback st2 of
                         (Inl e, st3) \<Rightarrow> (Inl e, st3)
                       | (Inr result, st3) \<Rightarrow>
                           (case commit flt st3 of
                              (Inl e, st4) \<Rightarrow> (Inl e, st4)
                            | (Inr _, st4) \<Rightarrow> (Inr result, st4))))
           in case tried of
                (Inr result, st5) \<Rightarrow> (Inr result, release st5)
              | (Inl e, st5) \<Rightarrow>
                  (case rollback flt st5 of
                     (Inl e', st6) \<Rightarrow> (Inl e', release st6)
                   | (Inr _, st6) \<Rightarrow> (Inl e, release st6))))"

section \<open>Chunked transactional loader (services/batch.service.js)\<close>

record insert_result =
  ib_success :: bool
  ib_inserted :: nat
  ib_batch :: "nat option"
  ib_message :: "string option"
  ib_error :: "string option"
  ib_code :: "string option"

text \<open>
  \<open>insertBatch\<close>: nothing is done for an empty list. Otherwise, inside the \<open>try\<close>, the
  records are sanitized, the columns are the keys of the first sanitized record
  (\<open>Object.keys\<close> throws if there is none), the values are every record's value for every
  column, flattened, and one INSERT with one placeholder group per record is executed
  inside \<open>transaction\<close>. Any error, of the sanitizer or of the store, is caught and
  returned as a failure carrying \<open>error.message\<close> and \<open>error.code\<close>.
\<close>

definition insertBatch ::
    "fault_plan \<Rightarrow> store \<Rightarrow> string \<Rightarrow> jsobj list \<Rightarrow> nat \<Rightarrow> insert_result \<times> store" where
  "insertBatch flt st tableName records batchNumber =
     (if length records = 0
      then (\<lparr>ib_success = True, ib_inserted = 0, ib_batch = None,
             ib_message = Some ''No records to insert'', ib_error = None, ib_code = None\<rparr>, st)
      else
        (case fst (sanitizeRecords records []) of
           Inl e \<Rightarrow>
             (\<lparr>ib_success = False, ib_inserted = 0,
               ib_batch = Some batchNumber, ib_message = None,
               ib_error = Some e, ib_code = None\<rparr>, st)
         | Inr sanitizedRecords \<Rightarrow>
             (case sanitizedRecords of
                [] \<Rightarrow>
                  (\<lparr>ib_success = False, ib_inserted = 0,
                    ib_batch = Some batchNumber, ib_message = None,
                    ib_error = Some ''Cannot convert undefined or null to object'',
                    ib_code = None\<rparr>, st)
              | first # rest \<Rightarrow>
                  (let columns = Object_keys first;
                       vals = concat (map (\<lambda>record. map (\<lambda>col. get_prop record col) columns)
                                          sanitizedRecords);
                       query = \<lparr>q_table = tableName, q_columns = columns,
                                q_rows = length sanitizedRecords\<rparr>
                   in case transaction flt st (execute flt query vals) of
                        (Inr _, st') \<Rightarrow>
                          (\<lparr>ib_success = True, ib_inserted = length sanitizedRecords,
                            ib_batch = Some batchNumber, ib_message = None,
                            ib_error = None, ib_code = None\<rparr>, st')
                      | (Inl e, st') \<Rightarrow>
                          (\<lparr>ib_success = False, ib_inserted = 0,
                            ib_batch = Some batchNumber, ib_message = None,
                            ib_error = Some (err_message e), ib_code = err_code e\<rparr>, st')))))"

record batch_error =
  be_batch :: nat
  be_offset :: nat
  be_error :: "string option"
  be_code :: "string option"

record batch_stats =
  totalRecords :: nat
  totalBatches :: nat
  successfulBatches :: nat
  failedBatches :: nat
  insertedRecords :: nat
  errors :: "batch_error list"

text \<open>\<open>Math.ceil(n / k)\<close> for a positive \<open>k\<close>.\<close>

definition ceil_div :: "nat \<Rightarrow> nat \<Rightarrow> nat" where
  "ceil_div n k = (n + k - 1) div k"

text \<open>\<open>array.slice(start, end)\<close> for \<open>0 \<le> start\<close> and \<open>0 \<le> end\<close>.\<close>

definition slice :: "'a list \<Rightarrow> nat \<Rightarrow> nat \<Rightarrow> 'a list" where
  "slice xs start finish = take (finish - start) (drop start xs)"

text \<open>
  One record per \<open>insertBatch\<close> call made by \<open>processBatches\<close>: the batch number and
  offset, the records handed over and the result. The list of these calls is not a value
  of the program; it is kept beside the statistics to state what the loop did.
\<close>

record chunk_call =
  cc_batch :: nat
  cc_offset :: nat
  cc_records :: "jsobj list"
  cc_result :: insert_result

text \<open>The body of the \<open>for\<close> loop of \<open>processBatches\<close>, for the index \<open>i\<close>.\<close>

definition processBatches_step ::
    "fault_plan \<Rightarrow> string \<Rightarrow> jsobj list \<Rightarrow> nat \<Rightarrow>
     batch_stats \<times> chunk_call list \<times> store \<Rightarrow> nat \<Rightarrow> batch_stats \<times> chunk_call list \<times> store" where
  "processBatches_step flt tableName allRecords batchSize acc i =
     (case acc of (stats, calls, st) \<Rightarrow>
        (let start = i * batchSize;
             finish = min (start + batchSize) (length allRecords);
             batch = slice allRecords start finish;
             (result, st') = insertBatch flt st tableName batch (i + 1);
             stats' =
               (if ib_success result
                then stats\<lparr>successfulBatches := successfulBatches stats + 1,
                           insertedRecords := insertedRecords stats + ib_inserted result\<rparr>
                else stats\<lparr>failedBatches := failedBatches stats + 1,
                           errors := errors stats @
                             [\<lparr>be_batch = i + 1, be_offset = start,
                               be_error = ib_error result, be_code = ib_code result\<rparr>]\<rparr>)
         in (stats', calls @ [\<lparr>cc_batch = i + 1, cc_offset = start,
                                cc_records = batch, cc_result = result\<rparr>], st')))"

text \<open>
  \<open>processBatches\<close>, called as every call site of the repository calls it, without the
  optional \<open>onBatchComplete\<close> callback. With \<open>batchSize = 0\<close> the count
  \<open>Math.ceil(totalRecords / 0)\<close> is \<open>Infinity\<close> (the loop never ends) or \<open>NaN\<close>
  (for no records), neither of which is a number of batches: the model returns \<open>None\<close>.
\<close>

definition processBatches ::
    "fault_plan \<Rightarrow> store \<Rightarrow> string \<Rightarrow> jsobj list \<Rightarrow> nat \<Rightarrow>
     (batch_stats \<times> chunk_call list \<times> store) option" where
  "processBatches flt st tableName allRecords batchSize =
     (if batchSize = 0 then None
      else
        (let totalRecords = length allRecords;
             totalBatches = ceil_div totalRecords batchSize;
             stats = \<lparr>totalRecords = totalRecords, totalBatches = totalBatches,
                      successfulBatches = 0, failedBatches = 0, insertedRecords = 0,
                      errors = []\<rparr>
         in Some (foldl (processBatches_step flt tableName allRecords batchSize)
                        (stats, [], st) [0..<totalBatches])))"

section \<open>Paginated source reader (utils/api-client.js)\<close>

text \<open>
  \<open>get(client, endpoint, {offset})\<close> never throws: it returns \<open>{success: true, data}\<close>,
  where \<open>data.count\<close> is the total reported by the source and \<open>data.results\<close> the
  page's records, or \<open>{success: false, error}\<close>. The source API is outside the
  repository; it is a function from the requested offset to the response, arbitrary in
  every theorem (a traversal with a positive page size requests every offset at most
  once, so this covers a source whose answers change during the run).
\<close>

datatype 'r api_response =
    ApiOk nat "'r list"
  | ApiFailed string

text \<open>
  What a traversal does, in order: the offsets it requests, the pages it skips with a
  warning, and the pages it hands to the callback, with the page index and the total
  number of pages passed along. Like \<open>chunk_call\<close>, the list of events is kept beside
  the result to state what the loop did.
\<close>

datatype 'r page_event =
    Requested nat
  | Skipped nat
  | Processed "'r list" nat nat

record 'r paginated_result =
  pr_success :: bool
  pr_error :: "string option"
  pr_data :: "'r list"
  pr_totalCount :: "nat option"
  pr_fetchedCount :: "nat option"

text \<open>The body of the \<open>for\<close> loop of \<open>getAllPaginated\<close>, for the index \<open>page\<close>.\<close>

definition getAllPaginated_step ::
    "(nat \<Rightarrow> 'r api_response) \<Rightarrow> nat \<Rightarrow> 'r list \<times> 'r page_event list \<Rightarrow> nat \<Rightarrow>
     'r list \<times> 'r page_event list" where
  "getAllPaginated_step get limit acc page =
     (case acc of (allResults, events) \<Rightarrow>
        (let offset = page * limit
         in case get offset of
              ApiFailed e \<Rightarrow> (allResults, events @ [Requested offset, Skipped page])
            | ApiOk count results \<Rightarrow> (allResults @ results, events @ [Requested offset])))"

text \<open>
  \<open>getAllPaginated\<close>. With \<open>limit = 0\<close> and a positive total,
  \<open>Math.ceil(totalCount / 0)\<close> is \<open>Infinity\<close> and the loop never ends (\<open>None\<close>); with a
  total of zero it is \<open>NaN\<close> and the loop body never runs.
\<close>

definition getAllPaginated ::
    "(nat \<Rightarrow> 'r api_response) \<Rightarrow> nat \<Rightarrow> ('r paginated_result \<times> 'r page_event list) option" where
  "getAllPaginated get limit =
     (case get 0 of
        ApiFailed e \<Rightarrow>
          Some (\<lparr>pr_success = False, pr_error = Some e, pr_data = [],
                 pr_totalCount = None, pr_fetchedCount = None\<rparr>, [Requested 0])
      | ApiOk totalCount results \<Rightarrow>
          (if limit = 0 \<and> 0 < totalCount then None
           else
             (let totalPages = (if limit = 0 then 0 else ceil_div totalCount limit);
                  (allResults, events) =
                     foldl (getAllPaginated_step get limit) (results, [Requested 0])
                           [1..<totalPages]
              in Some (\<lparr>pr_success = True, pr_error = None, pr_data = allResults,
                        pr_totalCount = Some totalCount,
                        pr_fetchedCount = Some (length allResults)\<rparr>, events))))"

record stream_result =
  sr_success :: bool
  sr_error :: "string option"
  sr_totalPages :: "nat option"
  sr_totalRecords :: "nat option"

text \<open>
  The callback \<open>processFn(records, page, totalPages)\<close> works on a state of its caller's
  (statistics, the store); it returns the new state and, when it throws, the message of
  the error. It is awaited: the loop goes on only when it has returned.
\<close>

type_synonym ('r, 's) process_fn = "'s \<Rightarrow> 'r list \<Rightarrow> nat \<Rightarrow> nat \<Rightarrow> string option \<times> 's"

text \<open>
  The \<open>for\<close> loop of \<open>processPaginatedInBatches\<close> over the remaining pages. A failed
  page is skipped with a warning; an error thrown by the callback leaves the loop (it is
  caught by the \<open>try\<close> around the whole function).
\<close>

fun processPaginatedInBatches_loop ::
    "(nat \<Rightarrow> 'r api_response) \<Rightarrow> ('r, 's) process_fn \<Rightarrow> nat \<Rightarrow> nat \<Rightarrow> nat list \<Rightarrow>
     'r page_event list \<times> 's \<Rightarrow> string option \<times> 'r page_event list \<times> 's" where
  "processPaginatedInBatches_loop get processFn limit totalPages [] (events, st) =
     (None, events, st)"
| "processPaginatedInBatches_loop get processFn limit totalPages (page # pages) (events, st) =
     (let offset = page * limit
      in case get offset of
           ApiFailed e \<Rightarrow>
             processPaginatedInBatches_loop get processFn limit totalPages pages
               (events @ [Requested offset, Skipped page], st)
         | ApiOk count results \<Rightarrow>
             (case processFn st results page totalPages of
                (Some thrown, st') \<Rightarrow>
                  (Some thrown,
                   events @ [Requested offset, Processed results page totalPages], st')
              | (None, st') \<Rightarrow>
                  processPaginatedInBatches_loop get processFn limit totalPages pages
                    (events @ [Requested offset, Processed results page totalPages], st')))"

text \<open>
  \<open>processPaginatedInBatches\<close>. The number of pages is computed once, from the count of
  the first response. With \<open>limit = 0\<close> it is \<open>Infinity\<close> or \<open>NaN\<close>, which the callback
  would receive as its \<open>totalPages\<close>: outside the model (\<open>None\<close>).
\<close>

definition processPaginatedInBatches ::
    "(nat \<Rightarrow> 'r api_response) \<Rightarrow> ('r, 's) process_fn \<Rightarrow> nat \<Rightarrow> 's \<Rightarrow>
     (stream_result \<times> 'r page_event list \<times> 's) option" where
  "processPaginatedInBatches get processFn limit st =
     (case get 0 of
        ApiFailed e \<Rightarrow>
          Some (\<lparr>sr_success = False, sr_error = Some e,
                 sr_totalPages = None, sr_totalRecords = None\<rparr>, [Requested 0], st)
      | ApiOk totalCount results \<Rightarrow>
          (if limit = 0 then None
           else
             (let totalPages = ceil_div totalCount limit
              in case processFn st results 0 totalPages of
                   (Some thrown, st1) \<Rightarrow>
                     Some (\<lparr>sr_success = False, sr_error = Some thrown,
                            sr_totalPages = None, sr_totalRecords = None\<rparr>,
                           [Requested 0, Processed results 0 totalPages], st1)
                 | (None, st1) \<Rightarrow>
                     (case processPaginatedInBatches_loop get processFn limit totalPages
                             [1..<totalPages]
                             ([Requested 0, Processed results 0 totalPages], st1) of
                        (Some thrown, events, st2) \<Rightarrow>
                          Some (\<lparr>sr_success = False, sr_error = Some thrown,
                                 sr_totalPages = None, sr_totalRecords = None\<rparr>,
                                events, st2)
                      | (None, events, st2) \<Rightarrow>
                          Some (\<lparr>sr_success = True, sr_error = None,
                                 sr_totalPages = Some totalPages,
                                 sr_totalRecords = Some totalCount\<rparr>, events, st2)))))"

section \<open>Reconciliation engine (services/ai-mapper.service.js)\<close>

subsection \<open>The JavaScript built-ins the cache key is made of\<close>

text \<open>Decimal digits of a number, as \<open>String(n)\<close> and \<open>JSON.stringify(n)\<close> print an integer.\<close>

fun show_nat :: "nat \<Rightarrow> string" where
  "show_nat n =
     (if n < 10 then [char_of (48 + n)]
      else show_nat (n div 10) @ [char_of (48 + n mod 10)])"

definition show_int :: "int \<Rightarrow> string" where
  "show_int i = (if i < 0 then CHR ''-'' # show_nat (nat (- i)) else show_nat (nat i))"

fun join :: "string \<Rightarrow> string list \<Rightarrow> string" where
  "join sep [] = []"
| "join sep [s] = s"
| "join sep (s # t # ss) = s @ sep @ join sep (t # ss)"

text \<open>\<open>ToString\<close>, which the default comparison of \<open>Array.prototype.sort\<close> applies.\<close>

fun js_toString :: "jsval \<Rightarrow> string" where
  "js_toString JUndefined = ''undefined''"
| "js_toString JNull = ''null''"
| "js_toString (JBool b) = (if b then ''true'' else ''false'')"
| "js_toString (JNum n) = show_int n"
| "js_toString (JStr s) = s"
| "js_toString (JArr xs) =
     join '','' (map (\<lambda>x. if x = JNull \<or> x = JUndefined then [] else js_toString x) xs)"
| "js_toString (JObj kvs) = ''[object Object]''"

text \<open>
  \<open>array.sort()\<close> without a comparison function: \<open>undefined\<close> elements go last, the
  others are ordered by their strings, character code by character code, and the sort is
  stable.
\<close>

definition js_sort :: "jsval list \<Rightarrow> jsval list" where
  "js_sort xs =
     sort_key js_toString (filter (\<lambda>x. x \<noteq> JUndefined) xs)
     @ filter (\<lambda>x. x = JUndefined) xs"

text \<open>
  \<open>JSON.stringify\<close>: a string in double quotes with \<open>"\<close> and \<open>\\<close> escaped (control
  characters are left as they are here), \<open>undefined\<close> printed as \<open>null\<close> inside an
  array and dropped, with its key, from an object.
\<close>

definition quote :: "string \<Rightarrow> string" where
  "quote s =
     CHR 0x22 #
     concat (map (\<lambda>c. if c = CHR 0x22 \<or> c = CHR 0x5C then [CHR 0x5C, c] else [c]) s)
     @ [CHR 0x22]"

fun JSON_stringify :: "jsval \<Rightarrow> string" where
  "JSON_stringify JUndefined = ''null''"
| "JSON_stringify JNull = ''null''"
| "JSON_stringify (JBool b) = (if b then ''true'' else ''false'')"
| "JSON_stringify (JNum n) = show_int n"
| "JSON_stringify (JStr s) = quote s"
| "JSON_stringify (JArr xs) = ''['' @ join '','' (map JSON_stringify xs) @ '']''"
| "JSON_stringify (JObj kvs) =
     ''{'' @ join '',''
        (map (\<lambda>(k, v). quote k @ '':'' @ JSON_stringify v)
             (filter (\<lambda>(k, v). v \<noteq> JUndefined) kvs)) @ ''}''"

text \<open>
  Reading a property of an arbitrary value, for the names the code reads (\<open>id\<close>,
  \<open>error\<close>, \<open>mapper\<close>, \<open>missing\<close>; none is a built-in property of a string, an array
  or a number): a \<open>TypeError\<close> on \<open>null\<close> and \<open>undefined\<close>, the property of an
  object, \<open>undefined\<close> otherwise.
\<close>

definition read_prop :: "jsval \<Rightarrow> string \<Rightarrow> string + jsval" where
  "read_prop v name =
     (case v of
        JUndefined \<Rightarrow> Inl (''Cannot read properties of undefined (reading '' @ name @ '')'')
      | JNull \<Rightarrow> Inl (''Cannot read properties of null (reading '' @ name @ '')'')
      | JObj kvs \<Rightarrow> Inr (get_prop kvs name)
      | _ \<Rightarrow> Inr JUndefined)"

text \<open>\<open>Object.values(item)[0]\<close>.\<close>

definition first_value :: "jsval \<Rightarrow> string + jsval" where
  "first_value item =
     (case item of
        JUndefined \<Rightarrow> Inl ''Cannot convert undefined or null to object''
      | JNull \<Rightarrow> Inl ''Cannot convert undefined or null to object''
      | JObj kvs \<Rightarrow> Inr (case kvs of [] \<Rightarrow> JUndefined | (k, v) # _ \<Rightarrow> v)
      | JArr xs \<Rightarrow> Inr (case xs of [] \<Rightarrow> JUndefined | x # _ \<Rightarrow> x)
      | JStr s \<Rightarrow> Inr (case s of [] \<Rightarrow> JUndefined | c # _ \<Rightarrow> JStr [c])
      | _ \<Rightarrow> Inr JUndefined)"

text \<open>\<open>array.map(f)\<close> for an \<open>f\<close> that may throw: the first error leaves the loop.\<close>

fun map_throwing :: "('a \<Rightarrow> string + 'b) \<Rightarrow> 'a list \<Rightarrow> string + 'b list" where
  "map_throwing f [] = Inr []"
| "map_throwing f (x # xs) =
     (case f x of
        Inl e \<Rightarrow> Inl e
      | Inr y \<Rightarrow> (case map_throwing f xs of Inl e \<Rightarrow> Inl e | Inr ys \<Rightarrow> Inr (y # ys)))"

text \<open>Truthiness, \<open>typeof v === "object"\<close> and \<open>Array.isArray\<close>.\<close>

definition js_truthy :: "jsval \<Rightarrow> bool" where
  "js_truthy v =
     (case v of
        JUndefined \<Rightarrow> False
      | JNull \<Rightarrow> False
      | JBool b \<Rightarrow> b
      | JNum n \<Rightarrow> n \<noteq> 0
      | JStr s \<Rightarrow> s \<noteq> []
      | _ \<Rightarrow> True)"

definition typeof_object :: "jsval \<Rightarrow> bool" where
  "typeof_object v = (case v of JNull \<Rightarrow> True | JArr xs \<Rightarrow> True | JObj kvs \<Rightarrow> True | _ \<Rightarrow> False)"

definition Array_isArray :: "jsval \<Rightarrow> bool" where
  "Array_isArray v = (case v of JArr xs \<Rightarrow> True | _ \<Rightarrow> False)"

subsection \<open>The cache key\<close>

text \<open>\<open>apiResult.map((item) => item.id)\<close> and \<open>dbResult.map((item) => Object.values(item)[0])\<close>.\<close>

definition api_ids :: "jsval list \<Rightarrow> string + jsval list" where
  "api_ids apiResult = map_throwing (\<lambda>item. read_prop item ''id'') apiResult"

definition db_first_values :: "jsval list \<Rightarrow> string + jsval list" where
  "db_first_values dbResult = map_throwing first_value dbResult"

definition generateCacheKey :: "string \<Rightarrow> jsval list \<Rightarrow> jsval list \<Rightarrow> string + string" where
  "generateCacheKey entityType apiResult dbResult =
     (case api_ids apiResult of
        Inl e \<Rightarrow> Inl e
      | Inr ids \<Rightarrow>
          (let apiHash = JSON_stringify (JArr (js_sort ids))
           in case db_first_values dbResult of
                Inl e \<Rightarrow> Inl e
              | Inr firsts \<Rightarrow>
                  (let dbHash = JSON_stringify (JArr (js_sort firsts))
                   in Inr (entityType @ ''_'' @ apiHash @ ''_'' @ dbHash))))"

subsection \<open>The oracle and \<open>mapData\<close>\<close>

text \<open>
  The oracle (the chat-completion API) is outside the repository. What it is sent is
  determined by the entity type, the two collections and the options; its answer is
  either an error thrown somewhere between the request and the end of \<open>JSON.parse\<close>
  (the API is unreachable, the answer has no JSON in it) or the parsed value. It need
  not answer the same request twice in the same way: it is a function of the number of
  requests made before and of the request, arbitrary in every theorem.
\<close>

record mapper_options =
  allowManyToOne :: bool
  requireCompleteMapping :: bool
  relatedMappings :: "jsval option"

record oracle_request =
  rq_entityType :: string
  rq_apiResult :: "jsval list"
  rq_dbResult :: "jsval list"
  rq_options :: mapper_options

type_synonym oracle_fn = "nat \<Rightarrow> oracle_request \<Rightarrow> string + jsval"

text \<open>
  The module state: the process-wide \<open>mapperCache\<close>, and the requests sent to the oracle
  so far.
\<close>

record mapper_state =
  mapperCache :: "string \<rightharpoonup> jsval"
  oracleCalls :: "oracle_request list"

text \<open>
  What \<open>mapData\<close> returns: the cached or parsed \<open>result\<close> object itself, or the object
  \<open>{error: "AI_MAPPING_ERROR", message, details}\<close> built in its \<open>catch\<close>, here with its
  message. Nothing is thrown to the caller.
\<close>

datatype mapdata_result =
    Returned jsval
  | AI_MAPPING_ERROR string

text \<open>\<open>if (result.error)\<close>, for a result that is not \<open>null\<close>.\<close>

definition reports_error :: "jsval \<Rightarrow> bool" where
  "reports_error result =
     (case read_prop result ''error'' of Inl e \<Rightarrow> False | Inr err \<Rightarrow> js_truthy err)"

text \<open>The checks made on the parsed answer, in the order of the source.\<close>

definition check_result :: "jsval \<Rightarrow> string + bool" where
  "check_result result =
     (case read_prop result ''error'' of
        Inl e \<Rightarrow> Inl e
      | Inr err \<Rightarrow>
          if js_truthy err then Inr False
          else
            (case read_prop result ''mapper'' of
               Inl e \<Rightarrow> Inl e
             | Inr mapper \<Rightarrow>
                 if \<not> js_truthy mapper \<or> \<not> typeof_object mapper
                 then Inl ''Invalid mapper structure in AI response''
                 else
                   (case read_prop result ''missing'' of
                      Inl e \<Rightarrow> Inl e
                    | Inr missing \<Rightarrow>
                        if \<not> Array_isArray missing
                        then Inl ''Invalid missing structure in AI response''
                        else Inr True)))"

text \<open>
  \<open>mapData\<close>: a cached result is returned at once. Otherwise the oracle is asked; an
  answer whose \<open>error\<close> is truthy is returned as it is and not cached
  (\<open>check_result\<close> gives \<open>Inr False\<close>); an answer that passes the checks is cached and
  returned; every error thrown on the way ends in the \<open>catch\<close>.
\<close>

definition mapData ::
    "oracle_fn \<Rightarrow> mapper_state \<Rightarrow> string \<Rightarrow> jsval list \<Rightarrow> jsval list \<Rightarrow> mapper_options \<Rightarrow>
     mapdata_result \<times> mapper_state" where
  "mapData ask st entityType apiResult dbResult options =
     (case generateCacheKey entityType apiResult dbResult of
        Inl e \<Rightarrow> (AI_MAPPING_ERROR e, st)
      | Inr cacheKey \<Rightarrow>
          (case mapperCache st cacheKey of
             Some cached \<Rightarrow> (Returned cached, st)
           | None \<Rightarrow>
               (let request = \<lparr>rq_entityType = entityType, rq_apiResult = apiResult,
                               rq_dbResult = dbResult, rq_options = options\<rparr>;
                    st1 = st\<lparr>oracleCalls := oracleCalls st @ [request]\<rparr>
                in case ask (length (oracleCalls st)) request of
                     Inl e \<Rightarrow> (AI_MAPPING_ERROR e, st1)
                   | Inr result \<Rightarrow>
                       (case check_result result of
                          Inl e \<Rightarrow> (AI_MAPPING_ERROR e, st1)
                        | Inr False \<Rightarrow> (Returned result, st1)
                        | Inr True \<Rightarrow>
                            (Returned result,
                             st1\<lparr>mapperCache := (mapperCache st1)(cacheKey \<mapsto> result)\<rparr>)))))"

text \<open>
  The three checks the specification asks for, in its words: \<open>mapper\<close> is an object,
  every value of \<open>mapper\<close> can be coerced to the target id type (a number, or a string of
  decimal digits), and \<open>missing\<close> is an array. This is not a definition of the program;
  it is what the program is compared with.
\<close>

definition spec_coercible_to_id :: "jsval \<Rightarrow> bool" where
  "spec_coercible_to_id v =
     (case v of
        JNum n \<Rightarrow> True
      | JStr s \<Rightarrow> s \<noteq> [] \<and> (\<forall>c \<in> set s. c \<in> set ''0123456789'')
      | _ \<Rightarrow> False)"

definition spec_valid_result :: "jsval \<Rightarrow> bool" where
  "spec_valid_result result =
     (case result of
        JObj props \<Rightarrow>
          (case get_prop props ''mapper'' of
             JObj mapper \<Rightarrow> \<forall>v \<in> set (map snd mapper). spec_coercible_to_id v
           | _ \<Rightarrow> False)
          \<and> Array_isArray (get_prop props ''missing'')
      | _ \<Rightarrow> False)"

section \<open>Dependency-linking orchestrator (migrations/koibox/citas.js, POST /citas)\<close>

text \<open>
  The part of the page callback of \<open>POST /citas\<close> that loads a page, from the point
  where \<open>transformedBatch\<close> has been computed to the end of the callback.

  A record of \<open>transformedBatch\<close> is the object
  \<open>{...baseAppointmentData, id_tratamiento, observaciones_medicas, comentarios_cita,
  id_cita_reference, _isPrimary, _originalId}\<close>: the columns of the row to insert, the
  last of which is \<open>id_cita_reference\<close> (\<open>null\<close> on a primary record, the placeholder
  \<open>"PENDING"\<close> on a secondary one), followed by the two fields of metadata.
  \<open>_isPrimary\<close> is the boolean \<open>index === 0\<close>; \<open>_originalId\<close> is the identifier of the
  appointment at the source, an integer.
\<close>

record transformed_record =
  tr_columns :: jsobj
  tr_isPrimary :: bool
  tr_originalId :: int

record warnings =
  missingPatients :: nat
  missingDoctors :: nat
  missingTreatments :: nat
  missingSpaces :: nat

record global_stats = batch_stats +
  warnings :: warnings

text \<open>
  What the callback works on: the \<open>globalStats\<close> of the handler, the store, and the
  \<open>insertBatch\<close> calls made so far (see \<open>chunk_call\<close>).
\<close>

record page_state =
  globalStats :: global_stats
  db :: store
  loads :: "chunk_call list"

text \<open>
  A row of \<open>SELECT id_cita, old_id FROM citas WHERE \<dots>\<close>: the generated key of a row of
  \<open>citas\<close> and the identifier the row was migrated from, two integers.
\<close>

record citas_row =
  id_cita :: int
  old_id :: int

text \<open>
  \<open>query(sql, params)\<close> for that SELECT, which reads back the primary rows (those with
  \<open>id_cita_reference IS NULL\<close>) of the given identifiers: the rows, or the error it
  throws. What the store answers is outside the repository: an arbitrary function of the
  store and the parameters.
\<close>

type_synonym select_fn = "store \<Rightarrow> jsval list \<Rightarrow> db_error + citas_row list"

text \<open>Object rest destructuring \<open>({a, b, ...rest}) => rest\<close>.\<close>

definition without_props :: "string list \<Rightarrow> jsobj \<Rightarrow> jsobj" where
  "without_props names obj = filter (\<lambda>(k, v). k \<notin> set names) obj"

text \<open>\<open>[...new Set(xs)]\<close>: the first occurrence of every value, in order.\<close>

definition unique_values :: "'a list \<Rightarrow> 'a list" where
  "unique_values xs = rev (remdups (rev xs))"

text \<open>\<open>globalStats.totalRecords += stats.totalRecords\<close> and the five lines after it.\<close>

definition accumulate :: "global_stats \<Rightarrow> batch_stats \<Rightarrow> global_stats" where
  "accumulate g s =
     g\<lparr>totalRecords := totalRecords g + totalRecords s,
       totalBatches := totalBatches g + totalBatches s,
       successfulBatches := successfulBatches g + successfulBatches s,
       failedBatches := failedBatches g + failedBatches s,
       insertedRecords := insertedRecords g + insertedRecords s,
       errors := errors g @ errors s\<rparr>"

definition primaryAppointments :: "transformed_record list \<Rightarrow> transformed_record list" where
  "primaryAppointments transformedBatch =
     filter (\<lambda>apt. tr_isPrimary apt) transformedBatch"

definition secondaryAppointments :: "transformed_record list \<Rightarrow> transformed_record list" where
  "secondaryAppointments transformedBatch =
     filter (\<lambda>apt. \<not> tr_isPrimary apt) transformedBatch"

text \<open>\<open>({_isPrimary, _originalId, ...appointment}) => appointment\<close>.\<close>

definition cleanPrimaryAppointments :: "transformed_record list \<Rightarrow> jsobj list" where
  "cleanPrimaryAppointments primaries = map tr_columns primaries"

definition uniqueOldIds :: "transformed_record list \<Rightarrow> int list" where
  "uniqueOldIds secondaries = unique_values (map tr_originalId secondaries)"

text \<open>
  \<open>primaryIdMapping[apt.old_id] = apt.id_cita\<close> for every row read back, on an object
  created by \<open>{}\<close>. A property key is the string of the value used as key: here the
  decimal numeral of an integer, which names no property of \<open>Object.prototype\<close>, so that
  the object is the list of the properties assigned and a key never assigned reads as
  \<open>undefined\<close>.
\<close>

definition primaryIdMapping :: "citas_row list \<Rightarrow> jsobj" where
  "primaryIdMapping insertedPrimaryAppointments =
     foldl (\<lambda>mapping apt.
              AList.update (js_toString (JNum (old_id apt))) (JNum (id_cita apt)) mapping)
           [] insertedPrimaryAppointments"

text \<open>
  One secondary record made ready for the insert: the three fields taken out by the
  destructuring, then \<open>id_cita_reference: primaryIdMapping[_originalId] || null\<close> put in.
\<close>

definition cleanSecondaryAppointment :: "jsobj \<Rightarrow> transformed_record \<Rightarrow> jsobj" where
  "cleanSecondaryAppointment mapping apt =
     (let appointment = without_props [''id_cita_reference''] (tr_columns apt);
          found = get_prop mapping (js_toString (JNum (tr_originalId apt)))
      in AList.update ''id_cita_reference'' (if js_truthy found then found else JNull)
                      appointment)"

definition cleanSecondaryAppointments :: "jsobj \<Rightarrow> transformed_record list \<Rightarrow> jsobj list" where
  "cleanSecondaryAppointments mapping secondaries =
     map (cleanSecondaryAppointment mapping) secondaries"

text \<open>
  \<open>processBatches("citas", records, 100)\<close> followed by the accumulation into
  \<open>globalStats\<close>. The batch size is 100, so \<open>processBatches\<close> returns.
\<close>

definition load_citas :: "fault_plan \<Rightarrow> page_state \<Rightarrow> jsobj list \<Rightarrow> page_state option" where
  "load_citas flt st records =
     (case processBatches flt (db st) ''citas'' records 100 of
        None \<Rightarrow> None
      | Some (stats, calls, store') \<Rightarrow>
          Some (st\<lparr>globalStats := accumulate (globalStats st) stats,
                   db := store', loads := loads st @ calls\<rparr>))"

text \<open>
  The callback from \<open>transformedBatch\<close> on. It returns the state it leaves and, when it
  throws (only the read-back query can), the message of the error; \<open>None\<close> stands for a
  run that does not return, which the fixed batch size excludes.
\<close>

definition citas_load_page ::
    "fault_plan \<Rightarrow> select_fn \<Rightarrow> jsval \<Rightarrow> jsval \<Rightarrow> page_state \<Rightarrow>
     transformed_record list \<Rightarrow> (string option \<times> page_state) option" where
  "citas_load_page flt query id_clinica id_super_clinica st transformedBatch =
     (if length transformedBatch = 0 then Some (None, st)
      else
        (let primaries = primaryAppointments transformedBatch;
             secondaries = secondaryAppointments transformedBatch
         in case (if length primaries > 0
                  then load_citas flt st (cleanPrimaryAppointments primaries)
                  else Some st) of
              None \<Rightarrow> None
            | Some st1 \<Rightarrow>
                if length secondaries > 0
                then
                  (case query (db st1)
                          (map JNum (uniqueOldIds secondaries)
                           @ [id_clinica, id_super_clinica]) of
                     Inl e \<Rightarrow> Some (Some (err_message e), st1)
                   | Inr insertedPrimaryAppointments \<Rightarrow>
                       (case load_citas flt st1
                               (cleanSecondaryAppointments
                                  (primaryIdMapping insertedPrimaryAppointments)
                                  secondaries) of
                          None \<Rightarrow> None
                        | Some st2 \<Rightarrow> Some (None, st2)))
                else Some (None, st1)))"

section \<open>Scenarios\<close>

text \<open>Concrete inputs on which the theorems below are exercised.\<close>

definition empty_store :: store where
  "empty_store = \<lparr>committed = [], pending = [], leased = 0, oplog = []\<rparr>"

definition five_records :: "jsobj list" where
  "five_records = [[(''old_id'', JNum 1)], [(''old_id'', JNum 2)], [(''old_id'', JNum 3)],
                   [(''old_id'', JNum 4)], [(''old_id'', JNum 5)]]"

text \<open>No operation ever fails.\<close>

definition no_fault :: fault_plan where
  "no_fault s opn = None"

text \<open>
  The eighth store operation of the run fails with a duplicate-key error: with chunks of
  two records that is the \<open>execute\<close> of the second chunk.
\<close>

definition fault_in_second_chunk :: fault_plan where
  "fault_in_second_chunk s opn =
     (if length (oplog s) = 7
      then Some \<lparr>err_message = ''Duplicate entry'', err_code = Some ''ER_DUP_ENTRY''\<rparr>
      else None)"

text \<open>
  A source holding \<open>items\<close> that answers every request with the total number of items
  and the page of at most \<open>pageSize\<close> items starting at the requested offset.
\<close>

definition mock_source :: "'r list \<Rightarrow> nat \<Rightarrow> nat \<Rightarrow> 'r api_response" where
  "mock_source items pageSize offset =
     ApiOk (length items) (take pageSize (drop offset items))"

text \<open>
  A source of 250 records whose third page (offset 200) fails, and one whose first page
  fails.
\<close>

definition flaky_source :: "nat \<Rightarrow> nat api_response" where
  "flaky_source offset =
     (if offset = 200 then ApiFailed ''timeout of 30000ms exceeded''
      else ApiOk 250 (take 100 (drop offset [0..<250])))"

definition down_source :: "nat \<Rightarrow> nat api_response" where
  "down_source offset = ApiFailed ''connect ECONNREFUSED''"

text \<open>A callback that counts the records it is given and never throws.\<close>

definition counting_fn :: "(nat, nat) process_fn" where
  "counting_fn st records page totalPages = (None, st + length records)"

text \<open>
  Two doctors of the source and two of the store, the state of a fresh process, the
  default options, and four oracles: one that maps the doctors, one that answers with a
  mapper holding a value that is no identifier, one that is unreachable at the first
  request and maps the doctors from then on, and one that reports at the first request
  that it cannot map and maps the doctors from then on.
\<close>

definition api_doctors :: "jsval list" where
  "api_doctors = [JObj [(''id'', JNum 7), (''text'', JStr ''Dra. Ruiz'')],
                  JObj [(''id'', JNum 3), (''text'', JStr ''Dr. Sanz'')]]"

definition db_doctors :: "jsval list" where
  "db_doctors = [JObj [(''id_usuario'', JNum 41), (''nombre'', JStr ''Ruiz'')],
                 JObj [(''id_usuario'', JNum 42), (''nombre'', JStr ''Sanz'')]]"

definition fresh_mapper :: mapper_state where
  "fresh_mapper = \<lparr>mapperCache = Map.empty, oracleCalls = []\<rparr>"

definition default_options :: mapper_options where
  "default_options =
     \<lparr>allowManyToOne = False, requireCompleteMapping = False, relatedMappings = None\<rparr>"

definition doctor_mapping :: jsval where
  "doctor_mapping =
     JObj [(''mapper'', JObj [(''7'', JNum 41), (''3'', JNum 42)]), (''missing'', JArr [])]"

definition good_oracle :: oracle_fn where
  "good_oracle n request = Inr doctor_mapping"

definition careless_mapping :: jsval where
  "careless_mapping =
     JObj [(''mapper'', JObj [(''7'', JStr ''Ruiz''), (''3'', JNum 42)]), (''missing'', JArr [])]"

definition careless_oracle :: oracle_fn where
  "careless_oracle n request = Inr careless_mapping"

definition recovering_oracle :: oracle_fn where
  "recovering_oracle n request =
     (if n = 0 then Inl ''Connection error.'' else Inr doctor_mapping)"

definition hesitant_oracle :: oracle_fn where
  "hesitant_oracle n request =
     (if n = 0
      then Inr (JObj [(''error'', JStr ''NO_MATCH''), (''message'', JStr ''cannot map'')])
      else Inr doctor_mapping)"

text \<open>An oracle whose answer has a string where the mapper object should be.\<close>

definition shapeless_oracle :: oracle_fn where
  "shapeless_oracle n request =
     Inr (JObj [(''mapper'', JStr ''7 -> 41''), (''missing'', JArr [])])"

text \<open>
  The same doctors as \<open>api_doctors\<close> and \<open>db_doctors\<close> by \<open>id\<close> and by first field,
  listed in another order and differing in every other field.
\<close>

definition api_doctors_renamed :: "jsval list" where
  "api_doctors_renamed = [JObj [(''id'', JNum 3), (''text'', JStr ''Sanz, Luis'')],
                          JObj [(''id'', JNum 7), (''email'', JStr ''ruiz@example.org'')]]"

definition db_doctors_renamed :: "jsval list" where
  "db_doctors_renamed = [JObj [(''id_usuario'', JNum 42), (''nombre'', JStr ''L. Sanz'')],
                         JObj [(''id_usuario'', JNum 41), (''activo'', JBool True)]]"

text \<open>
  A page with one appointment of two services: its primary record and one secondary
  record. The store rejects the first INSERT (the load of the primary record), and the
  read-back query, accordingly, finds no primary row.
\<close>

definition page_of_one_appointment :: "transformed_record list" where
  "page_of_one_appointment =
     [\<lparr>tr_columns = [(''id_paciente'', JNum 12), (''old_id'', JNum 501),
                     (''id_tratamiento'', JNum 8), (''id_cita_reference'', JNull)],
       tr_isPrimary = True, tr_originalId = 501\<rparr>,
      \<lparr>tr_columns = [(''id_paciente'', JNum 12), (''old_id'', JNum 501),
                     (''id_tratamiento'', JNum 9), (''id_cita_reference'', JStr ''PENDING'')],
       tr_isPrimary = False, tr_originalId = 501\<rparr>]"

definition fault_in_first_insert :: fault_plan where
  "fault_in_first_insert s opn =
     (if length (oplog s) = 2
      then Some \<lparr>err_message = ''Data too long'', err_code = Some ''ER_DATA_TOO_LONG''\<rparr>
      else None)"

definition nothing_found :: select_fn where
  "nothing_found s params = Inr []"

definition fresh_page_state :: page_state where
  "fresh_page_state =
     \<lparr>globalStats =
        \<lparr>totalRecords = 0, totalBatches = 0, successfulBatches = 0, failedBatches = 0,
         insertedRecords = 0, errors = [],
         warnings = \<lparr>missingPatients = 0, missingDoctors = 0, missingTreatments = 0,
                     missingSpaces = 0\<rparr>\<rparr>,
      db = empty_store, loads = []\<rparr>"

text \<open>The same page read back after its primary row was inserted as row 9001.\<close>

definition primary_found :: select_fn where
  "primary_found s params = Inr [\<lparr>id_cita = 9001, old_id = 501\<rparr>]"

section \<open>The sanitizer preserves fields and normalises missing values\<close>




lemma hasOwnProperty_cases:
  "hasOwnProperty obj key =
     (if ''hasOwnProperty'' \<in> set (Object_keys obj)
      then Inl ''obj.hasOwnProperty is not a function''
      else Inr (key \<in> set (Object_keys obj)))"
proof (cases "map_of obj ''hasOwnProperty''")
  case None
  then have "''hasOwnProperty'' \<notin> fst ` set obj" by (simp add: map_of_eq_None_iff)
  with None show ?thesis by (simp add: hasOwnProperty_def Object_keys_def)
next
  case (Some v)
  then have "''hasOwnProperty'' \<in> fst ` set obj"
    by (metis map_of_eq_None_iff option.distinct(1))
  with Some show ?thesis by (simp add: hasOwnProperty_def Object_keys_def)
qed

lemma convertUndefinedToNull_loop_throws:
  "''hasOwnProperty'' \<in> set (Object_keys obj) \<Longrightarrow> keys \<noteq> [] \<Longrightarrow>
   convertUndefinedToNull_loop obj keys result = Inl ''obj.hasOwnProperty is not a function''"
  by (cases keys) (simp_all add: hasOwnProperty_cases)

lemma convertUndefinedToNull_loop_returns:
  "''hasOwnProperty'' \<notin> set (Object_keys obj) \<Longrightarrow> set keys \<subseteq> set (Object_keys obj) \<Longrightarrow>
   convertUndefinedToNull_loop obj keys result =
     Inr (foldl (\<lambda>r key. set_prop r key
                   (if get_prop obj key = JUndefined then JNull else get_prop obj key))
                result keys)"
  by (induction keys arbitrary: result) (simp_all add: hasOwnProperty_cases)

lemma findUndefinedFields_loop_throws:
  "''hasOwnProperty'' \<in> set (Object_keys obj) \<Longrightarrow> keys \<noteq> [] \<Longrightarrow>
   findUndefinedFields_loop obj keys acc = Inl ''obj.hasOwnProperty is not a function''"
  by (cases keys) (simp_all add: hasOwnProperty_cases)

lemma findUndefinedFields_loop_returns:
  "''hasOwnProperty'' \<notin> set (Object_keys obj) \<Longrightarrow> set keys \<subseteq> set (Object_keys obj) \<Longrightarrow>
   findUndefinedFields_loop obj keys acc =
     Inr (acc @ filter (\<lambda>key. get_prop obj key = JUndefined) keys)"
  by (induction keys arbitrary: acc) (simp_all add: hasOwnProperty_cases)

lemma convertUndefinedToNull_cases:
  "convertUndefinedToNull obj =
     (if ''hasOwnProperty'' \<in> set (Object_keys obj)
      then Inl ''obj.hasOwnProperty is not a function''
      else Inr (foldl (\<lambda>r key. set_prop r key
                         (if get_prop obj key = JUndefined then JNull else get_prop obj key))
                      [] (Object_keys obj)))"
proof (cases "''hasOwnProperty'' \<in> set (Object_keys obj)")
  case True
  then have "Object_keys obj \<noteq> []" by auto
  with True show ?thesis
    by (simp add: convertUndefinedToNull_def convertUndefinedToNull_loop_throws)
next
  case False
  then show ?thesis
    by (simp add: convertUndefinedToNull_def convertUndefinedToNull_loop_returns)
qed

lemma findUndefinedFields_cases:
  "findUndefinedFields obj =
     (if ''hasOwnProperty'' \<in> set (Object_keys obj)
      then Inl ''obj.hasOwnProperty is not a function''
      else Inr (filter (\<lambda>key. get_prop obj key = JUndefined) (Object_keys obj)))"
proof (cases "''hasOwnProperty'' \<in> set (Object_keys obj)")
  case True
  then have "Object_keys obj \<noteq> []" by auto
  with True show ?thesis
    by (simp add: findUndefinedFields_def findUndefinedFields_loop_throws)
next
  case False
  then show ?thesis
    by (simp add: findUndefinedFields_def findUndefinedFields_loop_returns)
qed


lemma sanitizeRecord_fst:
  "fst (sanitizeRecord requiredFields index record) = convertUndefinedToNull record"
  by (simp add: sanitizeRecord_def findUndefinedFields_cases convertUndefinedToNull_cases
      Let_def)

lemma sanitizeRecords_from_Inr:
  "(fst (sanitizeRecords_from requiredFields index records) = Inr sanitized)
   = (map convertUndefinedToNull records = map Inr sanitized)"
proof (induction records arbitrary: index sanitized)
  case Nil
  then show ?case by auto
next
  case (Cons rec records)
  obtain c w where c: "sanitizeRecord requiredFields index rec = (c, w)"
    by (cases "sanitizeRecord requiredFields index rec")
  then have cc: "convertUndefinedToNull rec = c"
    using sanitizeRecord_fst [of requiredFields index rec] by simp
  obtain d ws where d: "sanitizeRecords_from requiredFields (Suc index) records = (d, ws)"
    by (cases "sanitizeRecords_from requiredFields (Suc index) records")
  have ih: "(d = Inr rest) = (map convertUndefinedToNull records = map Inr rest)" for rest
    using Cons.IH [of "Suc index" rest] d by simp
  show ?case
  proof (cases c)
    case (Inl e)
    then show ?thesis using c cc by (cases sanitized) auto
  next
    case (Inr s)
    show ?thesis
    proof (cases d)
      case (Inl e)
      then have "map convertUndefinedToNull records \<noteq> map Inr rest" for rest
        using ih [of rest] by simp
      then show ?thesis using c cc d Inr Inl by (cases sanitized) auto
    next
      case r: (Inr rest)
      then have "map convertUndefinedToNull records = map Inr rest" using ih by simp
      then show ?thesis using c cc d Inr r by (cases sanitized) auto
    qed
  qed
qed

lemma sanitizeRecords_Inr:
  "(fst (sanitizeRecords records requiredFields) = Inr sanitized)
   = (map convertUndefinedToNull records = map Inr sanitized)"
  by (simp add: sanitizeRecords_def sanitizeRecords_from_Inr)

lemma sanitizeRecords_from_Inl:
  "fst (sanitizeRecords_from requiredFields index records) = Inl e \<Longrightarrow>
   e = ''obj.hasOwnProperty is not a function''
   \<and> (\<exists>record \<in> set records. ''hasOwnProperty'' \<in> set (Object_keys record))"
proof (induction records arbitrary: index)
  case Nil
  then show ?case by simp
next
  case (Cons rec records)
  obtain c w where c: "sanitizeRecord requiredFields index rec = (c, w)"
    by (cases "sanitizeRecord requiredFields index rec")
  then have cc: "convertUndefinedToNull rec = c"
    using sanitizeRecord_fst [of requiredFields index rec] by simp
  obtain d ws where d: "sanitizeRecords_from requiredFields (Suc index) records = (d, ws)"
    by (cases "sanitizeRecords_from requiredFields (Suc index) records")
  show ?case
  proof (cases c)
    case (Inl e')
    then show ?thesis using Cons.prems c cc
      by (auto simp: convertUndefinedToNull_cases split: if_splits)
  next
    case (Inr s)
    then have "d = Inl e" using Cons.prems c d by (cases d) auto
    then show ?thesis using Cons.IH [of "Suc index"] d by auto
  qed
qed








section \<open>The chunk insert is all or nothing\<close>

lemmas store_ops_defs =
  getConnection_def beginTransaction_def execute_def commit_def rollback_def release_def
  store_call_def

lemma transaction_execute_cases:
  assumes "transaction flt st (execute flt q vals) = (r, st')"
  shows "leased st' = leased st
       \<and> (case r of
            Inr _ \<Rightarrow>
              committed st' = committed st @ [(q, vals)]
              \<and> oplog st' = oplog st @
                    [GetConnection, BeginTransaction, Execute q vals, Commit, Release]
          | Inl e \<Rightarrow>
              committed st' = committed st
              \<and> oplog st' \<in> {oplog st @ [GetConnection],
                    oplog st @ [GetConnection, BeginTransaction, Rollback, Release],
                    oplog st @ [GetConnection, BeginTransaction, Execute q vals,
                                Rollback, Release],
                    oplog st @ [GetConnection, BeginTransaction, Execute q vals, Commit,
                                Rollback, Release]})"
  using assms
  by (auto simp: transaction_def store_ops_defs Let_def split: option.splits)

lemma sanitizeRecords_length:
  "fst (sanitizeRecords records requiredFields) = Inr sanitized \<Longrightarrow>
   length sanitized = length records"
  by (metis length_map sanitizeRecords_Inr)

text \<open>
  Claim C4. \<open>insertBatch\<close> on an empty list touches nothing and reports success with
  zero inserted. On a non-empty list it issues one INSERT for all the records, each
  converted by \<open>convertUndefinedToNull\<close>, inside one transaction: a success means acquire,
  begin, execute, commit, release, with exactly that statement added to the committed
  data; a failure at any operation leaves the committed data as it was (no record of the
  chunk is inserted) and reports zero inserted, the transaction being rolled back
  whenever a connection had been acquired. The number of leased connections is the same
  after the call as before it on every path. When the sanitizer throws, which happens
  before the transaction, the store is not touched at all and the call reports the
  failure with zero inserted.
\<close>

theorem C4_insertBatch_atomic:
  assumes "insertBatch flt st tableName records batchNumber = (r, st')"
  shows "(records = [] \<longrightarrow> ib_success r \<and> ib_inserted r = 0 \<and> st' = st)
       \<and> (records \<noteq> [] \<longrightarrow>
           (case fst (sanitizeRecords records []) of
              Inl message \<Rightarrow>
                \<not> ib_success r \<and> ib_inserted r = 0 \<and> ib_error r = Some message \<and> st' = st
            | Inr sanitized \<Rightarrow>
               (let q = \<lparr>q_table = tableName, q_columns = Object_keys (hd sanitized),
                         q_rows = length records\<rparr>;
                    vals = concat (map (\<lambda>record. map (get_prop record) (q_columns q))
                                       sanitized)
                in map convertUndefinedToNull records = map Inr sanitized
                 \<and> leased st' = leased st
                 \<and> (ib_success r \<longrightarrow>
                       ib_inserted r = length records
                     \<and> committed st' = committed st @ [(q, vals)]
                     \<and> oplog st' = oplog st @
                           [GetConnection, BeginTransaction, Execute q vals, Commit, Release])
                 \<and> (\<not> ib_success r \<longrightarrow>
                       ib_inserted r = 0
                     \<and> committed st' = committed st
                     \<and> oplog st' \<in> {oplog st @ [GetConnection],
                           oplog st @ [GetConnection, BeginTransaction, Rollback, Release],
                           oplog st @ [GetConnection, BeginTransaction, Execute q vals,
                                       Rollback, Release],
                           oplog st @ [GetConnection, BeginTransaction, Execute q vals,
                                       Commit, Rollback, Release]}))))"
proof (rule conjI; rule impI)
  assume "records = []"
  with assms show "ib_success r \<and> ib_inserted r = 0 \<and> st' = st"
    by (auto simp: insertBatch_def)
next
  assume ne: "records \<noteq> []"
  show "case fst (sanitizeRecords records []) of
          Inl message \<Rightarrow>
            \<not> ib_success r \<and> ib_inserted r = 0 \<and> ib_error r = Some message \<and> st' = st
        | Inr sanitized \<Rightarrow>
           (let q = \<lparr>q_table = tableName, q_columns = Object_keys (hd sanitized),
                     q_rows = length records\<rparr>;
                vals = concat (map (\<lambda>record. map (get_prop record) (q_columns q))
                                   sanitized)
            in map convertUndefinedToNull records = map Inr sanitized
             \<and> leased st' = leased st
             \<and> (ib_success r \<longrightarrow>
                   ib_inserted r = length records
                 \<and> committed st' = committed st @ [(q, vals)]
                 \<and> oplog st' = oplog st @
                       [GetConnection, BeginTransaction, Execute q vals, Commit, Release])
             \<and> (\<not> ib_success r \<longrightarrow>
                   ib_inserted r = 0
                 \<and> committed st' = committed st
                 \<and> oplog st' \<in> {oplog st @ [GetConnection],
                       oplog st @ [GetConnection, BeginTransaction, Rollback, Release],
                       oplog st @ [GetConnection, BeginTransaction, Execute q vals,
                                   Rollback, Release],
                       oplog st @ [GetConnection, BeginTransaction, Execute q vals,
                                   Commit, Rollback, Release]}))"
  proof (cases "fst (sanitizeRecords records [])")
    case (Inl message)
    with assms ne show ?thesis by (auto simp: insertBatch_def)
  next
    case (Inr sanitized)
    define q where "q = \<lparr>q_table = tableName, q_columns = Object_keys (hd sanitized),
                  q_rows = length records\<rparr>"
    define vals where
      "vals = concat (map (\<lambda>record. map (get_prop record) (q_columns q)) sanitized)"
    obtain res st1 where t: "transaction flt st (execute flt q vals) = (res, st1)"
      by (cases "transaction flt st (execute flt q vals)")
    have conv: "map convertUndefinedToNull records = map Inr sanitized"
      using Inr by (simp add: sanitizeRecords_Inr)
    have len: "length sanitized = length records"
      using Inr by (rule sanitizeRecords_length)
    obtain first rest where fr: "sanitized = first # rest"
      using ne len by (cases sanitized) auto
    have "insertBatch flt st tableName records batchNumber =
          (case res of
             Inr _ \<Rightarrow> \<lparr>ib_success = True, ib_inserted = length records,
                       ib_batch = Some batchNumber, ib_message = None,
                       ib_error = None, ib_code = None\<rparr>
           | Inl e \<Rightarrow> \<lparr>ib_success = False, ib_inserted = 0,
                      ib_batch = Some batchNumber, ib_message = None,
                      ib_error = Some (err_message e), ib_code = err_code e\<rparr>, st1)"
      using t ne len unfolding insertBatch_def Inr
      by (simp add: Let_def q_def vals_def fr split: sum.splits)
    with assms have ib: "r = (case res of
             Inr _ \<Rightarrow> \<lparr>ib_success = True, ib_inserted = length records,
                       ib_batch = Some batchNumber, ib_message = None,
                       ib_error = None, ib_code = None\<rparr>
           | Inl e \<Rightarrow> \<lparr>ib_success = False, ib_inserted = 0,
                      ib_batch = Some batchNumber, ib_message = None,
                      ib_error = Some (err_message e), ib_code = err_code e\<rparr>)"
      and st: "st' = st1" by simp_all
    from transaction_execute_cases [OF t] ib st conv
    show ?thesis
      unfolding Inr sum.case Let_def q_def [symmetric] vals_def [symmetric]
      by (cases res) auto
  qed
qed

theorem C4_insertBatch_atomic_witness:
  "insertBatch
     (\<lambda>s opn. case opn of
                 Commit \<Rightarrow> Some \<lparr>err_message = ''Deadlock found'',
                                  err_code = Some ''ER_LOCK_DEADLOCK''\<rparr>
               | _ \<Rightarrow> None)
     empty_store
     ''citas'' [[(''old_id'', JNum 1), (''hora_fin'', JUndefined)],
                [(''old_id'', JNum 2), (''hora_fin'', JStr ''10:00'')]] 1
   = (\<lparr>ib_success = False, ib_inserted = 0, ib_batch = Some 1, ib_message = None,
       ib_error = Some ''Deadlock found'', ib_code = Some ''ER_LOCK_DEADLOCK''\<rparr>,
      \<lparr>committed = [], pending = [], leased = 0,
       oplog = [GetConnection, BeginTransaction,
                Execute \<lparr>q_table = ''citas'', q_columns = [''old_id'', ''hora_fin''],
                         q_rows = 2\<rparr>
                        [JNum 1, JNull, JNum 2, JStr ''10:00''],
                Commit, Rollback, Release]\<rparr>)
   \<and> insertBatch no_fault empty_store
        ''citas'' [[(''old_id'', JNum 1), (''hora_fin'', JUndefined)],
                   [(''old_id'', JNum 2), (''hora_fin'', JStr ''10:00'')]] 1
   = (\<lparr>ib_success = True, ib_inserted = 2, ib_batch = Some 1, ib_message = None,
       ib_error = None, ib_code = None\<rparr>,
      \<lparr>committed = [(\<lparr>q_table = ''citas'', q_columns = [''old_id'', ''hora_fin''],
                       q_rows = 2\<rparr>,
                      [JNum 1, JNull, JNum 2, JStr ''10:00''])],
       pending = [], leased = 0,
       oplog = [GetConnection, BeginTransaction,
                Execute \<lparr>q_table = ''citas'', q_columns = [''old_id'', ''hora_fin''],
                         q_rows = 2\<rparr>
                        [JNum 1, JNull, JNum 2, JStr ''10:00''],
                Commit, Release]\<rparr>)
   \<and> insertBatch no_fault empty_store ''citas'' [] 1
   = (\<lparr>ib_success = True, ib_inserted = 0, ib_batch = None,
       ib_message = Some ''No records to insert'', ib_error = None, ib_code = None\<rparr>,
      empty_store)
   \<and> insertBatch no_fault empty_store
        ''citas'' [[(''old_id'', JNum 1), (''hasOwnProperty'', JBool True)]] 1
   = (\<lparr>ib_success = False, ib_inserted = 0, ib_batch = Some 1, ib_message = None,
       ib_error = Some ''obj.hasOwnProperty is not a function'', ib_code = None\<rparr>,
      empty_store)"
proof -
  let ?flt = "\<lambda>(s::store) opn. case opn of
                 Commit \<Rightarrow> Some \<lparr>err_message = ''Deadlock found'',
                                  err_code = Some ''ER_LOCK_DEADLOCK''\<rparr>
               | _ \<Rightarrow> None"
  let ?recs = "[[(''old_id'', JNum 1), (''hora_fin'', JUndefined)],
                [(''old_id'', JNum 2), (''hora_fin'', JStr ''10:00'')]]"
  let ?bad = "[[(''old_id'', JNum 1), (''hasOwnProperty'', JBool True)]]"
  let ?q = "\<lparr>q_table = ''citas'', q_columns = [''old_id'', ''hora_fin''], q_rows = 2\<rparr>"
  let ?vals = "[JNum 1, JNull, JNum 2, JStr ''10:00'']"
  let ?failed = "\<lparr>ib_success = False, ib_inserted = 0, ib_batch = Some 1, ib_message = None,
       ib_error = Some ''Deadlock found'', ib_code = Some ''ER_LOCK_DEADLOCK''\<rparr>"
  let ?done = "\<lparr>ib_success = True, ib_inserted = 2, ib_batch = Some 1, ib_message = None,
       ib_error = None, ib_code = None\<rparr>"
  let ?none = "\<lparr>ib_success = True, ib_inserted = 0, ib_batch = None,
       ib_message = Some ''No records to insert'', ib_error = None, ib_code = None\<rparr>"
  let ?thrown = "\<lparr>ib_success = False, ib_inserted = 0, ib_batch = Some 1, ib_message = None,
       ib_error = Some ''obj.hasOwnProperty is not a function'', ib_code = None\<rparr>"
  have san: "fst (sanitizeRecords ?recs []) =
               Inr [[(''old_id'', JNum 1), (''hora_fin'', JNull)],
                    [(''old_id'', JNum 2), (''hora_fin'', JStr ''10:00'')]]"
    by (simp add: sanitizeRecords_def sanitizeRecord_def convertUndefinedToNull_def
        findUndefinedFields_def hasOwnProperty_def set_prop_def Object_keys_def get_prop_def)
  have bad: "fst (sanitizeRecords ?bad []) = Inl ''obj.hasOwnProperty is not a function''"
    by (simp add: sanitizeRecords_def sanitizeRecord_def convertUndefinedToNull_def
        findUndefinedFields_def hasOwnProperty_def set_prop_def Object_keys_def get_prop_def)
  obtain r1 s1 where e1: "insertBatch ?flt empty_store ''citas'' ?recs 1 = (r1, s1)"
    by (cases "insertBatch ?flt empty_store ''citas'' ?recs 1")
  obtain r2 s2 where e2: "insertBatch no_fault empty_store ''citas'' ?recs 1 = (r2, s2)"
    by (cases "insertBatch no_fault empty_store ''citas'' ?recs 1")
  obtain r3 s3 where e3: "insertBatch no_fault empty_store ''citas'' [] 1 = (r3, s3)"
    by (cases "insertBatch no_fault empty_store ''citas'' [] 1")
  obtain r4 s4 where e4: "insertBatch no_fault empty_store ''citas'' ?bad 1 = (r4, s4)"
    by (cases "insertBatch no_fault empty_store ''citas'' ?bad 1")
  have v1: "r1 = ?failed" and o1: "oplog s1 = [GetConnection, BeginTransaction,
              Execute ?q ?vals, Commit, Rollback, Release]" and p1: "pending s1 = []"
    using e1 unfolding insertBatch_def san
    by (simp_all add: Object_keys_def get_prop_def
        transaction_def store_ops_defs Let_def empty_store_def, auto)
  have v2: "r2 = ?done" and o2: "oplog s2 = [GetConnection, BeginTransaction,
              Execute ?q ?vals, Commit, Release]" and p2: "pending s2 = []"
    using e2 unfolding insertBatch_def san
    by (simp_all add: Object_keys_def get_prop_def
        transaction_def store_ops_defs Let_def empty_store_def no_fault_def, auto)
  have v3: "r3 = ?none" using e3 by (auto simp: insertBatch_def)
  have v4: "r4 = ?thrown" using e4 unfolding insertBatch_def bad by auto
  have ne: "?recs \<noteq> []" by simp
  from C4_insertBatch_atomic [OF e1] ne v1
  have c1: "committed s1 = committed empty_store" and l1: "leased s1 = leased empty_store"
    unfolding san by (simp_all add: Let_def)
  from C4_insertBatch_atomic [OF e2] ne v2
  have c2: "committed s2 = committed empty_store @ [(?q, ?vals)]"
    and l2: "leased s2 = leased empty_store"
    unfolding san by (simp_all add: Let_def Object_keys_def get_prop_def)
  from C4_insertBatch_atomic [OF e3] have c3: "s3 = empty_store" by simp
  from C4_insertBatch_atomic [OF e4] have c4: "s4 = empty_store"
    unfolding bad by simp
  have s1: "s1 = \<lparr>committed = [], pending = [], leased = 0,
                 oplog = [GetConnection, BeginTransaction, Execute ?q ?vals,
                          Commit, Rollback, Release]\<rparr>"
    using c1 l1 o1 p1 by (cases s1) (simp add: empty_store_def)
  have s2: "s2 = \<lparr>committed = [(?q, ?vals)], pending = [], leased = 0,
                 oplog = [GetConnection, BeginTransaction, Execute ?q ?vals,
                          Commit, Release]\<rparr>"
    using c2 l2 o2 p2 by (cases s2) (simp add: empty_store_def)
  show ?thesis using e1 e2 e3 e4 v1 v2 v3 v4 s1 s2 c3 c4 by simp
qed

section \<open>The chunk loop\<close>

lemma transaction_error_source:
  assumes "transaction flt st (execute flt q vals) = (Inl e, st')"
  shows "\<exists>s opn. flt s opn = Some e"
  using assms
  by (auto simp: transaction_def store_ops_defs Let_def split: option.splits)

lemma insertBatch_result:
  assumes "insertBatch flt st tableName batch b = (r, st')"
  shows "(ib_success r \<longrightarrow> ib_inserted r = length batch)
       \<and> (\<not> ib_success r \<longrightarrow>
             ib_inserted r = 0
           \<and> (case fst (sanitizeRecords batch []) of
                Inl message \<Rightarrow> ib_error r = Some message \<and> ib_code r = None
              | Inr sanitized \<Rightarrow>
                  (\<exists>e s opn. flt s opn = Some e
                     \<and> ib_error r = Some (err_message e) \<and> ib_code r = err_code e)))"
proof (cases "batch = []")
  case True
  with assms show ?thesis by (auto simp: insertBatch_def)
next
  case ne: False
  show ?thesis
  proof (cases "fst (sanitizeRecords batch [])")
    case (Inl message)
    with assms ne show ?thesis by (auto simp: insertBatch_def)
  next
    case (Inr sanitized)
    then have len: "length sanitized = length batch" by (rule sanitizeRecords_length)
    then obtain first rest where fr: "sanitized = first # rest"
      using ne by (cases sanitized) auto
    show ?thesis
      using assms ne len unfolding insertBatch_def Inr
      by (auto simp: Let_def fr split: sum.splits prod.splits)
         (blast dest: transaction_error_source)
  qed
qed

lemma slice_chunk:
  "slice xs (i * k) (min (i * k + k) (length xs)) = take k (drop (i * k) xs)"
  by (simp add: slice_def min_def)

lemma processBatches_step_unfold:
  assumes "insertBatch flt st tableName (slice allRecords (i * batchSize)
              (min (i * batchSize + batchSize) (length allRecords))) (i + 1) = (r, st')"
  shows "processBatches_step flt tableName allRecords batchSize (stats, calls, st) i =
     ((if ib_success r
       then stats\<lparr>successfulBatches := successfulBatches stats + 1,
                  insertedRecords := insertedRecords stats + ib_inserted r\<rparr>
       else stats\<lparr>failedBatches := failedBatches stats + 1,
                  errors := errors stats @
                    [\<lparr>be_batch = i + 1, be_offset = i * batchSize,
                      be_error = ib_error r, be_code = ib_code r\<rparr>]\<rparr>),
      calls @ [\<lparr>cc_batch = i + 1, cc_offset = i * batchSize,
                cc_records = slice allRecords (i * batchSize)
                   (min (i * batchSize + batchSize) (length allRecords)),
                cc_result = r\<rparr>],
      st')"
  using assms by (simp add: processBatches_step_def Let_def)

lemma processBatches_loop:
  assumes "foldl (processBatches_step flt tableName allRecords batchSize)
                 (stats0, [], st) [0..<n] = (stats, calls, st')"
  shows "length calls = n
   \<and> (\<forall>i<n. cc_batch (calls ! i) = i + 1 \<and> cc_offset (calls ! i) = i * batchSize
          \<and> cc_records (calls ! i) = slice allRecords (i * batchSize)
                (min (i * batchSize + batchSize) (length allRecords)))
   \<and> (\<forall>c \<in> set calls.
          (ib_success (cc_result c) \<longrightarrow> ib_inserted (cc_result c) = length (cc_records c))
        \<and> (\<not> ib_success (cc_result c) \<longrightarrow>
             (case fst (sanitizeRecords (cc_records c) []) of
                Inl message \<Rightarrow>
                  ib_error (cc_result c) = Some message \<and> ib_code (cc_result c) = None
              | Inr sanitized \<Rightarrow>
                  (\<exists>e s opn. flt s opn = Some e
                     \<and> ib_error (cc_result c) = Some (err_message e)
                     \<and> ib_code (cc_result c) = err_code e))))
   \<and> totalRecords stats = totalRecords stats0
   \<and> totalBatches stats = totalBatches stats0
   \<and> successfulBatches stats = successfulBatches stats0
        + length (filter (\<lambda>c. ib_success (cc_result c)) calls)
   \<and> failedBatches stats = failedBatches stats0
        + length (filter (\<lambda>c. \<not> ib_success (cc_result c)) calls)
   \<and> insertedRecords stats = insertedRecords stats0
        + sum_list (map (\<lambda>c. length (cc_records c))
                        (filter (\<lambda>c. ib_success (cc_result c)) calls))
   \<and> errors stats = errors stats0 @
        map (\<lambda>c. \<lparr>be_batch = cc_batch c, be_offset = cc_offset c,
                   be_error = ib_error (cc_result c), be_code = ib_code (cc_result c)\<rparr>)
            (filter (\<lambda>c. \<not> ib_success (cc_result c)) calls)"
  using assms
proof (induction n arbitrary: stats calls st')
  case 0
  then show ?case by simp
next
  case (Suc n)
  obtain stats1 calls1 st1 where
    prev: "foldl (processBatches_step flt tableName allRecords batchSize)
                 (stats0, [], st) [0..<n] = (stats1, calls1, st1)"
    by (metis prod_cases3)
  let ?batch = "slice allRecords (n * batchSize)
                  (min (n * batchSize + batchSize) (length allRecords))"
  obtain r st2 where ib: "insertBatch flt st1 tableName ?batch (n + 1) = (r, st2)"
    by (cases "insertBatch flt st1 tableName ?batch (n + 1)")
  note ih = Suc.IH [OF prev]
  note res = insertBatch_result [OF ib]
  have step: "processBatches_step flt tableName allRecords batchSize (stats1, calls1, st1) n
              = (stats, calls, st')"
    using Suc.prems prev by simp
  let ?c = "\<lparr>cc_batch = n + 1, cc_offset = n * batchSize, cc_records = ?batch, cc_result = r\<rparr>"
  have calls: "calls = calls1 @ [?c]"
    and stats: "stats = (if ib_success r
       then stats1\<lparr>successfulBatches := successfulBatches stats1 + 1,
                  insertedRecords := insertedRecords stats1 + ib_inserted r\<rparr>
       else stats1\<lparr>failedBatches := failedBatches stats1 + 1,
                  errors := errors stats1 @
                    [\<lparr>be_batch = n + 1, be_offset = n * batchSize,
                      be_error = ib_error r, be_code = ib_code r\<rparr>]\<rparr>)"
    using step unfolding processBatches_step_unfold [OF ib] by simp_all
  have len: "length calls1 = n" using ih by simp
  have nth: "\<forall>i<Suc n. cc_batch (calls ! i) = i + 1 \<and> cc_offset (calls ! i) = i * batchSize
          \<and> cc_records (calls ! i) = slice allRecords (i * batchSize)
                (min (i * batchSize + batchSize) (length allRecords))"
    using ih len by (auto simp: calls nth_append less_Suc_eq)
  have ok: "\<forall>c \<in> set calls.
          (ib_success (cc_result c) \<longrightarrow> ib_inserted (cc_result c) = length (cc_records c))
        \<and> (\<not> ib_success (cc_result c) \<longrightarrow>
             (case fst (sanitizeRecords (cc_records c) []) of
                Inl message \<Rightarrow>
                  ib_error (cc_result c) = Some message \<and> ib_code (cc_result c) = None
              | Inr sanitized \<Rightarrow>
                  (\<exists>e s opn. flt s opn = Some e
                     \<and> ib_error (cc_result c) = Some (err_message e)
                     \<and> ib_code (cc_result c) = err_code e)))"
    using ih res by (auto simp: calls cong: sum.case_cong)
  show ?case
  proof (cases "ib_success r")
    case True
    then show ?thesis using ih nth ok len
      by (simp add: calls stats conjunct1 [OF res] cong: sum.case_cong)
  next
    case False
    then show ?thesis using ih nth ok len
      by (simp add: calls stats conjunct2 [OF res] cong: sum.case_cong)
  qed
qed

text \<open>
  The stores and the results of the loop: chunk \<open>i\<close> is inserted by \<open>insertBatch\<close> into
  the store left by the chunks before it.
\<close>

lemma processBatches_loop_store:
  assumes "foldl (processBatches_step flt tableName allRecords batchSize)
                 (stats0, [], st) [0..<n] = (stats, calls, st')"
  shows "st' = foldl (\<lambda>s j. snd (insertBatch flt s tableName
                                (take batchSize (drop (j * batchSize) allRecords)) (j + 1)))
                     st [0..<n]
   \<and> length calls = n
   \<and> (\<forall>i<n. cc_result (calls ! i) =
          fst (insertBatch flt
                 (foldl (\<lambda>s j. snd (insertBatch flt s tableName
                            (take batchSize (drop (j * batchSize) allRecords)) (j + 1)))
                        st [0..<i])
                 tableName (take batchSize (drop (i * batchSize) allRecords)) (i + 1)))"
  using assms
proof (induction n arbitrary: stats calls st')
  case 0
  then show ?case by simp
next
  case (Suc n)
  obtain stats1 calls1 st1 where
    prev: "foldl (processBatches_step flt tableName allRecords batchSize)
                 (stats0, [], st) [0..<n] = (stats1, calls1, st1)"
    by (metis prod_cases3)
  let ?batch = "slice allRecords (n * batchSize)
                  (min (n * batchSize + batchSize) (length allRecords))"
  let ?B = "\<lambda>j. take batchSize (drop (j * batchSize) allRecords)"
  let ?f = "\<lambda>s j. snd (insertBatch flt s tableName (?B j) (j + 1))"
  obtain r st2 where ib: "insertBatch flt st1 tableName ?batch (n + 1) = (r, st2)"
    by (cases "insertBatch flt st1 tableName ?batch (n + 1)")
  note ih = Suc.IH [OF prev]
  have step: "processBatches_step flt tableName allRecords batchSize (stats1, calls1, st1) n
              = (stats, calls, st')"
    using Suc.prems prev by simp
  have calls: "calls = calls1 @ [\<lparr>cc_batch = n + 1, cc_offset = n * batchSize,
                                  cc_records = ?batch, cc_result = r\<rparr>]"
    and st': "st' = st2"
    using step unfolding processBatches_step_unfold [OF ib] by simp_all
  have st1: "st1 = foldl ?f st [0..<n]" and len: "length calls1 = n"
    and prevs: "\<forall>i<n. cc_result (calls1 ! i) =
                  fst (insertBatch flt (foldl ?f st [0..<i]) tableName (?B i) (i + 1))"
    using ih by simp_all
  have ib': "insertBatch flt (foldl ?f st [0..<n]) tableName (?B n) (n + 1) = (r, st2)"
    using ib unfolding st1 slice_chunk .
  have a: "st' = foldl ?f st [0..<Suc n]" using ib' st' by simp
  have b: "length calls = Suc n" using len calls by simp
  have c: "\<forall>i<Suc n. cc_result (calls ! i) =
                  fst (insertBatch flt (foldl ?f st [0..<i]) tableName (?B i) (i + 1))"
    using prevs len ib' by (auto simp: calls nth_append less_Suc_eq)
  show ?case using a b c by blast
qed

lemma ceil_div_bound: "0 < k \<Longrightarrow> i < ceil_div n k \<longleftrightarrow> i * k < n"
proof -
  assume k: "0 < k"
  have "i < ceil_div n k \<longleftrightarrow> Suc i \<le> (n + k - 1) div k"
    by (simp add: ceil_div_def Suc_le_eq)
  also have "\<dots> \<longleftrightarrow> Suc i * k \<le> n + k - 1"
    using k by (simp add: less_eq_div_iff_mult_less_eq)
  also have "\<dots> \<longleftrightarrow> i * k < n"
    using k by auto
  finally show ?thesis .
qed

lemma ceil_div_ceiling:
  assumes k: "0 < k"
  shows "int (ceil_div n k) = \<lceil>real n / real k\<rceil>"
proof -
  let ?q = "ceil_div n k"
  have up: "n \<le> ?q * k"
    using ceil_div_bound [OF k, of ?q n] by simp
  have lo: "real_of_int (int ?q) - 1 < real n / real k"
  proof (cases "?q = 0")
    case True
    have "(0::real) \<le> real n / real k" by simp
    then have "- 1 < real n / real k" by linarith
    with True show ?thesis by simp
  next
    case False
    then have "(?q - 1) * k < n"
      using ceil_div_bound [OF k, of "?q - 1" n] by simp
    then have "real ((?q - 1) * k) < real n" by (simp only: of_nat_less_iff)
    then have "(real ?q - 1) * real k < real n" using False by (simp add: of_nat_diff)
    then show ?thesis using k by (simp add: pos_less_divide_eq)
  qed
  have "real n \<le> real (?q * k)" using up by (simp only: of_nat_le_iff)
  then have hi: "real n / real k \<le> real_of_int (int ?q)"
    using k by (simp add: pos_divide_le_eq)
  show ?thesis using ceiling_unique [OF lo hi] by simp
qed

lemma concat_chunks:
  "0 < k \<Longrightarrow> concat (map (\<lambda>i. take k (drop (i * k) xs)) [0..<m]) = take (m * k) xs"
proof (induction m)
  case 0
  then show ?case by simp
next
  case (Suc m)
  have "take (m * k) xs @ take k (drop (m * k) xs) = take (m * k + k) xs"
    by (simp add: take_add)
  with Suc show ?case by (simp add: add.commute)
qed

lemma chunk_length:
  assumes "0 < k" "i < ceil_div (length xs) k"
  shows "0 < length (take k (drop (i * k) xs))"
    and "length (take k (drop (i * k) xs)) \<le> k"
    and "Suc i < ceil_div (length xs) k \<Longrightarrow> length (take k (drop (i * k) xs)) = k"
proof -
  have "i * k < length xs" using assms by (simp add: ceil_div_bound)
  then show "0 < length (take k (drop (i * k) xs))" using assms by simp
  show "length (take k (drop (i * k) xs)) \<le> k" by simp
  assume "Suc i < ceil_div (length xs) k"
  then have "Suc i * k < length xs" using assms by (simp add: ceil_div_bound)
  then show "length (take k (drop (i * k) xs)) = k" by simp
qed

text \<open>
  Claim C5. For a chunk size \<open>K > 0\<close> and \<open>N\<close> records, \<open>processBatches\<close> returns, having
  made exactly \<open>\<lceil>N / K\<rceil>\<close> calls of \<open>insertBatch\<close>, numbered \<open>1, 2, \<dots>\<close>, at the ascending
  offsets \<open>0, K, 2K, \<dots>\<close>; call \<open>i\<close> receives the records from offset \<open>i * K\<close>, at most
  \<open>K\<close> of them, at least one, and exactly \<open>K\<close> unless it is the last; the chunks put
  back together are the input. Each call is the load of its chunk: its result is the
  result of \<open>insertBatch\<close> on the chunk in the store left by the chunks before it, and
  the store at the end is the store left by the last chunk. In the statistics
  \<open>totalBatches\<close> is that number of calls, \<open>successfulBatches\<close> and \<open>failedBatches\<close> count
  the calls that succeeded and those that failed, and
  \<open>successfulBatches + failedBatches = totalBatches\<close>.
\<close>

theorem C5_processBatches_chunk_count:
  assumes "0 < batchSize"
  shows "\<exists>stats calls st'.
           processBatches flt st tableName allRecords batchSize = Some (stats, calls, st')
         \<and> int (length calls) = \<lceil>real (length allRecords) / real batchSize\<rceil>
         \<and> map cc_offset calls = map (\<lambda>i. i * batchSize) [0..<length calls]
         \<and> map cc_batch calls = map Suc [0..<length calls]
         \<and> (\<forall>i<length calls.
                cc_records (calls ! i) = take batchSize (drop (i * batchSize) allRecords)
              \<and> 0 < length (cc_records (calls ! i))
              \<and> length (cc_records (calls ! i)) \<le> batchSize
              \<and> (Suc i < length calls \<longrightarrow> length (cc_records (calls ! i)) = batchSize))
         \<and> concat (map cc_records calls) = allRecords
         \<and> (let after = (\<lambda>n. foldl (\<lambda>s j. snd (insertBatch flt s tableName
                                   (take batchSize (drop (j * batchSize) allRecords)) (j + 1)))
                                 st [0..<n])
            in (\<forall>i<length calls.
                   cc_result (calls ! i) =
                     fst (insertBatch flt (after i) tableName (cc_records (calls ! i)) (i + 1)))
             \<and> st' = after (length calls))
         \<and> totalRecords stats = length allRecords
         \<and> totalBatches stats = length calls
         \<and> successfulBatches stats = length (filter (\<lambda>c. ib_success (cc_result c)) calls)
         \<and> failedBatches stats = length (filter (\<lambda>c. \<not> ib_success (cc_result c)) calls)
         \<and> successfulBatches stats + failedBatches stats = totalBatches stats"
proof -
  let ?n = "ceil_div (length allRecords) batchSize"
  let ?stats0 = "\<lparr>totalRecords = length allRecords, totalBatches = ?n,
                  successfulBatches = 0, failedBatches = 0, insertedRecords = 0,
                  errors = []\<rparr>"
  let ?after = "\<lambda>n. foldl (\<lambda>s j. snd (insertBatch flt s tableName
                                   (take batchSize (drop (j * batchSize) allRecords)) (j + 1)))
                                 st [0..<n]"
  obtain stats calls st' where
    run: "foldl (processBatches_step flt tableName allRecords batchSize)
                (?stats0, [], st) [0..<?n] = (stats, calls, st')"
    by (metis prod_cases3)
  note inv = processBatches_loop [OF run]
  note sto = processBatches_loop_store [OF run]
  have pb: "processBatches flt st tableName allRecords batchSize = Some (stats, calls, st')"
    using assms run by (simp add: processBatches_def Let_def)
  have len: "length calls = ?n" using inv by simp
  have recs: "\<forall>i<?n. cc_records (calls ! i) = take batchSize (drop (i * batchSize) allRecords)"
    using inv by (simp add: slice_chunk)
  have ceil: "int (length calls) = \<lceil>real (length allRecords) / real batchSize\<rceil>"
    using ceil_div_ceiling [OF assms] len by simp
  have offs: "map cc_offset calls = map (\<lambda>i. i * batchSize) [0..<length calls]"
    using inv len by (intro nth_equalityI) simp_all
  have nums: "map cc_batch calls = map Suc [0..<length calls]"
    using inv len by (intro nth_equalityI) simp_all
  have chunks: "map cc_records calls
                = map (\<lambda>i. take batchSize (drop (i * batchSize) allRecords)) [0..<?n]"
    using recs len by (intro nth_equalityI) simp_all
  have "length allRecords \<le> ?n * batchSize"
    using ceil_div_bound [OF assms, of ?n "length allRecords"] by simp
  then have cat: "concat (map cc_records calls) = allRecords"
    unfolding chunks concat_chunks [OF assms] by simp
  have sizes: "\<forall>i<length calls.
                cc_records (calls ! i) = take batchSize (drop (i * batchSize) allRecords)
              \<and> 0 < length (cc_records (calls ! i))
              \<and> length (cc_records (calls ! i)) \<le> batchSize
              \<and> (Suc i < length calls \<longrightarrow> length (cc_records (calls ! i)) = batchSize)"
    using recs chunk_length [OF assms, of _ allRecords] unfolding len by simp
  have results: "\<forall>i<length calls.
                   cc_result (calls ! i) =
                     fst (insertBatch flt (?after i) tableName (cc_records (calls ! i)) (i + 1))"
    using sto recs len by simp
  have final: "st' = ?after (length calls)" using sto len by simp
  have part: "length (filter (\<lambda>c. ib_success (cc_result c)) calls)
            + length (filter (\<lambda>c. \<not> ib_success (cc_result c)) calls) = length calls"
    by (rule sum_length_filter_compl)
  have tot: "totalRecords stats = length allRecords" "totalBatches stats = length calls"
    using inv len by simp_all
  have sb: "successfulBatches stats = length (filter (\<lambda>c. ib_success (cc_result c)) calls)"
    and fb: "failedBatches stats = length (filter (\<lambda>c. \<not> ib_success (cc_result c)) calls)"
    using inv by simp_all
  have sums: "successfulBatches stats + failedBatches stats = totalBatches stats"
    using sb fb part tot by simp
  have stores: "let after = ?after
            in (\<forall>i<length calls.
                   cc_result (calls ! i) =
                     fst (insertBatch flt (after i) tableName (cc_records (calls ! i)) (i + 1)))
             \<and> st' = after (length calls)"
    unfolding Let_def using results final by blast
  show ?thesis using pb ceil offs nums sizes cat stores tot sb fb sums by blast
qed

theorem C5_processBatches_chunk_count_witness:
  "(0::nat) < 2
   \<and> (\<exists>stats calls st'.
         processBatches no_fault empty_store ''citas'' five_records 2
           = Some (stats, calls, st')
       \<and> int (length calls) = \<lceil>real (length five_records) / real (2::nat)\<rceil>
       \<and> map cc_offset calls = [0, 2, 4]
       \<and> map (\<lambda>c. length (cc_records c)) calls = [2, 2, 1]
       \<and> map (\<lambda>c. ib_inserted (cc_result c)) calls = [2, 2, 1]
       \<and> map (\<lambda>(q, vals). (q_rows q, vals)) (committed st')
           = [(2, [JNum 1, JNum 2]), (2, [JNum 3, JNum 4]), (1, [JNum 5])]
       \<and> totalBatches stats = 3
       \<and> successfulBatches stats = 3
       \<and> successfulBatches stats + failedBatches stats = totalBatches stats)"
proof -
  have h: "(0::nat) < 2" by simp
  from C5_processBatches_chunk_count [OF h, of no_fault empty_store "''citas''" five_records]
  obtain stats calls st' where
    pb: "processBatches no_fault empty_store ''citas'' five_records 2
           = Some (stats, calls, st')"
    and ceil: "int (length calls) = \<lceil>real (length five_records) / real (2::nat)\<rceil>"
    and sums: "successfulBatches stats + failedBatches stats = totalBatches stats"
    by blast
  have ev: "map_option (\<lambda>(s, c, t). (totalBatches s, successfulBatches s, map cc_offset c,
                                     map (\<lambda>x. length (cc_records x)) c,
                                     map (\<lambda>x. ib_inserted (cc_result x)) c,
                                     map (\<lambda>(q, vals). (q_rows q, vals)) (committed t)))
              (processBatches no_fault empty_store ''citas'' five_records 2)
            = Some (3, 3, [0, 2, 4], [2, 2, 1], [2, 2, 1],
                    [(2, [JNum 1, JNum 2]), (2, [JNum 3, JNum 4]), (1, [JNum 5])])"
    by code_simp
  from ev pb have "totalBatches stats = 3" "successfulBatches stats = 3"
    "map cc_offset calls = [0, 2, 4]"
    "map (\<lambda>c. length (cc_records c)) calls = [2, 2, 1]"
    "map (\<lambda>c. ib_inserted (cc_result c)) calls = [2, 2, 1]"
    "map (\<lambda>(q, vals). (q_rows q, vals)) (committed st')
           = [(2, [JNum 1, JNum 2]), (2, [JNum 3, JNum 4]), (1, [JNum 5])]" by simp_all
  with h pb ceil sums show ?thesis by simp
qed

text \<open>
  Claim C6. For \<open>K > 0\<close>, \<open>processBatches\<close> returns statistics whatever the store does
  (no store error escapes): every chunk is handed to \<open>insertBatch\<close>, the chunks after a
  failed one included, each in the store left by the chunks before it;
  \<open>insertedRecords\<close> counts the records of the successful chunks only; and \<open>errors\<close>
  holds, in order, one entry per failed chunk with its batch number \<open>i + 1\<close>, its offset
  \<open>i * K\<close>, and the message and code of the store error that made the chunk fail (for a
  chunk that failed before reaching the store, because the sanitizer threw on one of its
  records, the message thrown and no code).
\<close>

theorem C6_failed_chunk_isolated:
  assumes "0 < batchSize"
  shows "\<exists>stats calls st'.
           processBatches flt st tableName allRecords batchSize = Some (stats, calls, st')
         \<and> map cc_records calls
             = map (\<lambda>i. take batchSize (drop (i * batchSize) allRecords))
                   [0..<ceil_div (length allRecords) batchSize]
         \<and> (\<forall>i<length calls.
               cc_result (calls ! i) =
                 fst (insertBatch flt
                        (foldl (\<lambda>s j. snd (insertBatch flt s tableName
                                   (take batchSize (drop (j * batchSize) allRecords)) (j + 1)))
                               st [0..<i])
                        tableName (cc_records (calls ! i)) (i + 1)))
         \<and> insertedRecords stats
             = sum_list (map (\<lambda>c. length (cc_records c))
                             (filter (\<lambda>c. ib_success (cc_result c)) calls))
         \<and> failedBatches stats = length (filter (\<lambda>c. \<not> ib_success (cc_result c)) calls)
         \<and> errors stats
             = map (\<lambda>c. \<lparr>be_batch = cc_batch c, be_offset = cc_offset c,
                          be_error = ib_error (cc_result c),
                          be_code = ib_code (cc_result c)\<rparr>)
                   (filter (\<lambda>c. \<not> ib_success (cc_result c)) calls)
         \<and> (\<forall>i<length calls. \<not> ib_success (cc_result (calls ! i)) \<longrightarrow>
               (case fst (sanitizeRecords (cc_records (calls ! i)) []) of
                  Inl message \<Rightarrow>
                    \<lparr>be_batch = i + 1, be_offset = i * batchSize,
                     be_error = Some message, be_code = None\<rparr> \<in> set (errors stats)
                | Inr sanitized \<Rightarrow>
                    (\<exists>e s opn. flt s opn = Some e
                       \<and> \<lparr>be_batch = i + 1, be_offset = i * batchSize,
                           be_error = Some (err_message e), be_code = err_code e\<rparr>
                         \<in> set (errors stats))))"
proof -
  let ?n = "ceil_div (length allRecords) batchSize"
  let ?stats0 = "\<lparr>totalRecords = length allRecords, totalBatches = ?n,
                  successfulBatches = 0, failedBatches = 0, insertedRecords = 0,
                  errors = []\<rparr>"
  let ?err = "\<lambda>c. \<lparr>be_batch = cc_batch c, be_offset = cc_offset c,
                     be_error = ib_error (cc_result c), be_code = ib_code (cc_result c)\<rparr>"
  let ?after = "\<lambda>n. foldl (\<lambda>s j. snd (insertBatch flt s tableName
                                   (take batchSize (drop (j * batchSize) allRecords)) (j + 1)))
                                 st [0..<n]"
  obtain stats calls st' where
    run: "foldl (processBatches_step flt tableName allRecords batchSize)
                (?stats0, [], st) [0..<?n] = (stats, calls, st')"
    by (metis prod_cases3)
  note inv = processBatches_loop [OF run]
  note sto = processBatches_loop_store [OF run]
  have pb: "processBatches flt st tableName allRecords batchSize = Some (stats, calls, st')"
    using assms run by (simp add: processBatches_def Let_def)
  have len: "length calls = ?n" using inv by simp
  have recs: "\<forall>i<?n. cc_records (calls ! i) = take batchSize (drop (i * batchSize) allRecords)"
    using inv by (simp add: slice_chunk)
  have chunks: "map cc_records calls
                = map (\<lambda>i. take batchSize (drop (i * batchSize) allRecords)) [0..<?n]"
    using inv len by (intro nth_equalityI) (simp_all add: slice_chunk)
  have results: "\<forall>i<length calls.
                   cc_result (calls ! i) =
                     fst (insertBatch flt (?after i) tableName (cc_records (calls ! i)) (i + 1))"
    using sto recs len by simp
  have ins: "insertedRecords stats
             = sum_list (map (\<lambda>c. length (cc_records c))
                             (filter (\<lambda>c. ib_success (cc_result c)) calls))"
    and fb: "failedBatches stats = length (filter (\<lambda>c. \<not> ib_success (cc_result c)) calls)"
    and errs: "errors stats = map ?err (filter (\<lambda>c. \<not> ib_success (cc_result c)) calls)"
    using inv by simp_all
  have captured: "\<forall>i<length calls. \<not> ib_success (cc_result (calls ! i)) \<longrightarrow>
               (case fst (sanitizeRecords (cc_records (calls ! i)) []) of
                  Inl message \<Rightarrow>
                    \<lparr>be_batch = i + 1, be_offset = i * batchSize,
                     be_error = Some message, be_code = None\<rparr> \<in> set (errors stats)
                | Inr sanitized \<Rightarrow>
                    (\<exists>e s opn. flt s opn = Some e
                       \<and> \<lparr>be_batch = i + 1, be_offset = i * batchSize,
                           be_error = Some (err_message e), be_code = err_code e\<rparr>
                         \<in> set (errors stats)))"
  proof (intro allI impI)
    fix i assume i: "i < length calls" and failed: "\<not> ib_success (cc_result (calls ! i))"
    let ?c = "calls ! i"
    have mem: "?c \<in> set calls" using i by simp
    have src: "case fst (sanitizeRecords (cc_records ?c) []) of
                Inl message \<Rightarrow>
                  ib_error (cc_result ?c) = Some message \<and> ib_code (cc_result ?c) = None
              | Inr sanitized \<Rightarrow>
                  (\<exists>e s opn. flt s opn = Some e
                     \<and> ib_error (cc_result ?c) = Some (err_message e)
                     \<and> ib_code (cc_result ?c) = err_code e)"
      using inv mem failed by blast
    have pos: "cc_batch ?c = i + 1" "cc_offset ?c = i * batchSize"
      using inv i len by simp_all
    have entry: "?err ?c \<in> set (errors stats)"
      unfolding errs using mem failed by simp
    show "case fst (sanitizeRecords (cc_records ?c) []) of
                  Inl message \<Rightarrow>
                    \<lparr>be_batch = i + 1, be_offset = i * batchSize,
                     be_error = Some message, be_code = None\<rparr> \<in> set (errors stats)
                | Inr sanitized \<Rightarrow>
                    (\<exists>e s opn. flt s opn = Some e
                       \<and> \<lparr>be_batch = i + 1, be_offset = i * batchSize,
                           be_error = Some (err_message e), be_code = err_code e\<rparr>
                         \<in> set (errors stats))"
    proof (cases "fst (sanitizeRecords (cc_records ?c) [])")
      case (Inl message)
      with src entry pos show ?thesis by simp
    next
      case (Inr sanitized)
      with src obtain e s opn where e: "flt s opn = Some e"
        "ib_error (cc_result ?c) = Some (err_message e)" "ib_code (cc_result ?c) = err_code e"
        by auto
      then have "\<lparr>be_batch = i + 1, be_offset = i * batchSize,
               be_error = Some (err_message e), be_code = err_code e\<rparr> \<in> set (errors stats)"
        using entry pos by simp
      with e(1) Inr show ?thesis by auto
    qed
  qed
  show ?thesis using pb chunks results ins fb errs captured by blast
qed

theorem C6_failed_chunk_isolated_witness:
  "(0::nat) < 2
   \<and> (\<exists>stats calls st'.
         processBatches fault_in_second_chunk empty_store ''citas'' five_records 2
           = Some (stats, calls, st')
       \<and> map (\<lambda>c. ib_success (cc_result c)) calls = [True, False, True]
       \<and> map cc_records calls
           = map (\<lambda>i. take 2 (drop (i * 2) five_records))
                 [0..<ceil_div (length five_records) 2]
       \<and> map (\<lambda>(q, vals). vals) (committed st') = [[JNum 1, JNum 2], [JNum 5]]
       \<and> insertedRecords stats = 3
       \<and> failedBatches stats = 1
       \<and> errors stats = [\<lparr>be_batch = 2, be_offset = 2,
                           be_error = Some ''Duplicate entry'',
                           be_code = Some ''ER_DUP_ENTRY''\<rparr>])"
proof -
  have h: "(0::nat) < 2" by simp
  from C6_failed_chunk_isolated [OF h, of fault_in_second_chunk empty_store "''citas''"
         five_records]
  obtain stats calls st' where
    pb: "processBatches fault_in_second_chunk empty_store ''citas'' five_records 2
           = Some (stats, calls, st')"
    and chunks: "map cc_records calls
           = map (\<lambda>i. take 2 (drop (i * 2) five_records))
                 [0..<ceil_div (length five_records) 2]"
    by blast
  have ev: "map_option (\<lambda>(s, c, t). (map (\<lambda>x. ib_success (cc_result x)) c,
                                     insertedRecords s, failedBatches s, errors s,
                                     map (\<lambda>(q, vals). vals) (committed t)))
              (processBatches fault_in_second_chunk empty_store ''citas'' five_records 2)
            = Some ([True, False, True], 3, 1,
                    [\<lparr>be_batch = 2, be_offset = 2, be_error = Some ''Duplicate entry'',
                      be_code = Some ''ER_DUP_ENTRY''\<rparr>],
                    [[JNum 1, JNum 2], [JNum 5]])"
    by code_simp
  from ev pb have "map (\<lambda>c. ib_success (cc_result c)) calls = [True, False, True]"
    "insertedRecords stats = 3" "failedBatches stats = 1"
    "errors stats = [\<lparr>be_batch = 2, be_offset = 2, be_error = Some ''Duplicate entry'',
                      be_code = Some ''ER_DUP_ENTRY''\<rparr>]"
    "map (\<lambda>(q, vals). vals) (committed st') = [[JNum 1, JNum 2], [JNum 5]]" by simp_all
  with h pb chunks show ?thesis by simp
qed

section \<open>The paginated traversals\<close>

lemma getAllPaginated_step_cases:
  "get (page * limit) = ApiOk count results \<Longrightarrow>
     getAllPaginated_step get limit (allResults, events) page
       = (allResults @ results, events @ [Requested (page * limit)])"
  "get (page * limit) = ApiFailed e \<Longrightarrow>
     getAllPaginated_step get limit (allResults, events) page
       = (allResults, events @ [Requested (page * limit), Skipped page])"
  by (simp_all add: getAllPaginated_step_def)

lemma getAllPaginated_loop:
  "foldl (getAllPaginated_step get limit) (allResults, events) pages =
     (allResults @ concat (map (\<lambda>page. case get (page * limit) of
                                          ApiOk count results \<Rightarrow> results
                                        | ApiFailed e \<Rightarrow> []) pages),
      events @ concat (map (\<lambda>page. case get (page * limit) of
                                      ApiOk count results \<Rightarrow> [Requested (page * limit)]
                                    | ApiFailed e \<Rightarrow> [Requested (page * limit), Skipped page])
                           pages))"
proof (induction pages arbitrary: allResults events)
  case Nil
  then show ?case by simp
next
  case (Cons page pages)
  show ?case
    by (cases "get (page * limit)") (simp_all add: getAllPaginated_step_cases Cons.IH)
qed

lemma processPaginatedInBatches_loop_quiet:
  assumes quiet: "\<And>s rs p t. fst (processFn s rs p t) = None"
  shows "processPaginatedInBatches_loop get processFn limit totalPages pages (events, st)
         = (None,
            events @ concat (map (\<lambda>page. case get (page * limit) of
                  ApiOk count results \<Rightarrow>
                    [Requested (page * limit), Processed results page totalPages]
                | ApiFailed e \<Rightarrow> [Requested (page * limit), Skipped page]) pages),
            foldl (\<lambda>s page. case get (page * limit) of
                      ApiOk count results \<Rightarrow> snd (processFn s results page totalPages)
                    | ApiFailed e \<Rightarrow> s) st pages)"
proof (induction pages arbitrary: events st)
  case Nil
  then show ?case by simp
next
  case (Cons page pages)
  show ?case
  proof (cases "get (page * limit)")
    case (ApiFailed e)
    then show ?thesis using Cons.IH [of "events @ [Requested (page * limit), Skipped page]" st]
      by simp
  next
    case (ApiOk count results)
    obtain st1 where f: "processFn st results page totalPages = (None, st1)"
      using quiet [of st results page totalPages]
      by (cases "processFn st results page totalPages") auto
    show ?thesis
      using Cons.IH [of "events @ [Requested (page * limit),
                                   Processed results page totalPages]" st1] ApiOk f
      by simp
  qed
qed

lemma processPaginatedInBatches_quiet:
  assumes first: "get 0 = ApiOk totalCount results" and limit: "0 < limit"
    and quiet: "\<And>s rs p t. fst (processFn s rs p t) = None"
  shows "processPaginatedInBatches get processFn limit st
           = Some (\<lparr>sr_success = True, sr_error = None,
                    sr_totalPages = Some (ceil_div totalCount limit),
                    sr_totalRecords = Some totalCount\<rparr>,
                  Requested 0 # Processed results 0 (ceil_div totalCount limit) #
                  concat (map (\<lambda>page. case get (page * limit) of
                                  ApiOk count rs \<Rightarrow>
                                    [Requested (page * limit),
                                     Processed rs page (ceil_div totalCount limit)]
                                | ApiFailed err \<Rightarrow> [Requested (page * limit), Skipped page])
                              [1..<ceil_div totalCount limit]),
                  foldl (\<lambda>s page. case get (page * limit) of
                            ApiOk count rs \<Rightarrow>
                              snd (processFn s rs page (ceil_div totalCount limit))
                          | ApiFailed err \<Rightarrow> s)
                        (snd (processFn st results 0 (ceil_div totalCount limit)))
                        [1..<ceil_div totalCount limit])"
proof -
  let ?tp = "ceil_div totalCount limit"
  have "fst (processFn st results 0 ?tp) = None" using quiet by blast
  then obtain st1 where f: "processFn st results 0 ?tp = (None, st1)"
    by (cases "processFn st results 0 ?tp") auto
  note loop = processPaginatedInBatches_loop_quiet [of processFn get limit ?tp "[1..<?tp]"
         "[Requested 0, Processed results 0 ?tp]" st1, OF quiet]
  from first limit f loop show ?thesis
    by (simp add: processPaginatedInBatches_def Let_def)
qed

lemma processPaginatedInBatches_loop_failed_pages:
  "(case processPaginatedInBatches_loop get processFn limit totalPages pages (events, st) of
      (thrown, evs, st') \<Rightarrow> (thrown, st'))
 = (case processPaginatedInBatches_loop get processFn limit totalPages
           (filter (\<lambda>page. case get (page * limit) of
                              ApiOk count rs \<Rightarrow> True | ApiFailed err \<Rightarrow> False) pages)
           (events', st) of
      (thrown, evs, st') \<Rightarrow> (thrown, st'))"
proof (induction pages arbitrary: events events' st)
  case Nil
  then show ?case by simp
next
  case (Cons page pages)
  show ?case
  proof (cases "get (page * limit)")
    case (ApiFailed e)
    then show ?thesis
      using Cons.IH [of "events @ [Requested (page * limit), Skipped page]" st events']
      by simp
  next
    case (ApiOk count results)
    obtain thrown st1 where f: "processFn st results page totalPages = (thrown, st1)"
      by (cases "processFn st results page totalPages")
    show ?thesis
    proof (cases thrown)
      case None
      then show ?thesis
        using Cons.IH [of "events @ [Requested (page * limit),
                                     Processed results page totalPages]" st1
                          "events' @ [Requested (page * limit),
                                      Processed results page totalPages]"] ApiOk f
        by simp
    next
      case (Some message)
      then show ?thesis using ApiOk f by simp
    qed
  qed
qed

text \<open>
  Claim C7. In both traversals a failed first request ends the operation at once: the
  result is unsuccessful and carries the error, no further page is requested, no record
  is returned and the callback is never run (the caller's state is returned as it was).
  When the first request succeeds (and the page size is positive), every page
  \<open>1 \<le> page < totalPages\<close> is requested in order whatever happened to the pages before
  it; a failed page contributes a warning and no records, a successful one contributes
  its records, and the operation reports success. For \<open>getAllPaginated\<close> the records
  returned are those of the successful pages, in order. For
  \<open>processPaginatedInBatches\<close> with a callback that does not throw, the state returned is
  the caller's state after the callback has run on the first page and then, in page
  order, on every later page that did not fail, the failed ones leaving the state as it
  was. Whatever the callback does, throwing included, the failed pages change neither
  the outcome nor the state of the loop over the later pages: both are those of the loop
  over the pages that did not fail.
\<close>

theorem C7_first_page_fatal_later_pages_skipped:
  "(get 0 = ApiFailed e \<longrightarrow>
       getAllPaginated get limit
         = Some (\<lparr>pr_success = False, pr_error = Some e, pr_data = [],
                  pr_totalCount = None, pr_fetchedCount = None\<rparr>, [Requested 0])
     \<and> processPaginatedInBatches get processFn limit st
         = Some (\<lparr>sr_success = False, sr_error = Some e,
                  sr_totalPages = None, sr_totalRecords = None\<rparr>, [Requested 0], st))
 \<and> (get 0 = ApiOk totalCount results \<and> 0 < limit \<longrightarrow>
       (\<exists>res. getAllPaginated get limit
           = Some (res,
                Requested 0 #
                concat (map (\<lambda>page. case get (page * limit) of
                                ApiOk count rs \<Rightarrow> [Requested (page * limit)]
                              | ApiFailed err \<Rightarrow> [Requested (page * limit), Skipped page])
                            [1..<ceil_div totalCount limit]))
         \<and> pr_success res
         \<and> pr_data res
             = results @ concat (map (\<lambda>page. case get (page * limit) of
                                         ApiOk count rs \<Rightarrow> rs
                                       | ApiFailed err \<Rightarrow> [])
                                     [1..<ceil_div totalCount limit]))
     \<and> ((\<forall>s rs p t. fst (processFn s rs p t) = None) \<longrightarrow>
          (\<exists>res. processPaginatedInBatches get processFn limit st
             = Some (res,
                  Requested 0 # Processed results 0 (ceil_div totalCount limit) #
                  concat (map (\<lambda>page. case get (page * limit) of
                                  ApiOk count rs \<Rightarrow>
                                    [Requested (page * limit),
                                     Processed rs page (ceil_div totalCount limit)]
                                | ApiFailed err \<Rightarrow> [Requested (page * limit), Skipped page])
                              [1..<ceil_div totalCount limit]),
                  foldl (\<lambda>s page. case get (page * limit) of
                            ApiOk count rs \<Rightarrow>
                              snd (processFn s rs page (ceil_div totalCount limit))
                          | ApiFailed err \<Rightarrow> s)
                        (snd (processFn st results 0 (ceil_div totalCount limit)))
                        [1..<ceil_div totalCount limit])
           \<and> sr_success res)))
 \<and> (case processPaginatedInBatches_loop get processFn limit totalPages pages (events, st) of
      (thrown, evs, st') \<Rightarrow> (thrown, st'))
   = (case processPaginatedInBatches_loop get processFn limit totalPages
           (filter (\<lambda>page. case get (page * limit) of
                              ApiOk count rs \<Rightarrow> True | ApiFailed err \<Rightarrow> False) pages)
           (events, st) of
      (thrown, evs, st') \<Rightarrow> (thrown, st'))"
proof (intro conjI impI)
  assume "get 0 = ApiFailed e"
  then show "getAllPaginated get limit
         = Some (\<lparr>pr_success = False, pr_error = Some e, pr_data = [],
                  pr_totalCount = None, pr_fetchedCount = None\<rparr>, [Requested 0])"
    by (simp add: getAllPaginated_def)
next
  assume "get 0 = ApiFailed e"
  then show "processPaginatedInBatches get processFn limit st
         = Some (\<lparr>sr_success = False, sr_error = Some e,
                  sr_totalPages = None, sr_totalRecords = None\<rparr>, [Requested 0], st)"
    by (simp add: processPaginatedInBatches_def)
next
  assume "get 0 = ApiOk totalCount results \<and> 0 < limit"
  then show "\<exists>res. getAllPaginated get limit
           = Some (res,
                Requested 0 #
                concat (map (\<lambda>page. case get (page * limit) of
                                ApiOk count rs \<Rightarrow> [Requested (page * limit)]
                              | ApiFailed err \<Rightarrow> [Requested (page * limit), Skipped page])
                            [1..<ceil_div totalCount limit]))
         \<and> pr_success res
         \<and> pr_data res
             = results @ concat (map (\<lambda>page. case get (page * limit) of
                                         ApiOk count rs \<Rightarrow> rs
                                       | ApiFailed err \<Rightarrow> [])
                                     [1..<ceil_div totalCount limit])"
    by (simp add: getAllPaginated_def getAllPaginated_loop Let_def)
next
  assume ok: "get 0 = ApiOk totalCount results \<and> 0 < limit"
    and quiet: "\<forall>s rs p t. fst (processFn s rs p t) = None"
  from processPaginatedInBatches_quiet [of get totalCount results limit processFn st] ok quiet
  show "\<exists>res. processPaginatedInBatches get processFn limit st
             = Some (res,
                  Requested 0 # Processed results 0 (ceil_div totalCount limit) #
                  concat (map (\<lambda>page. case get (page * limit) of
                                  ApiOk count rs \<Rightarrow>
                                    [Requested (page * limit),
                                     Processed rs page (ceil_div totalCount limit)]
                                | ApiFailed err \<Rightarrow> [Requested (page * limit), Skipped page])
                              [1..<ceil_div totalCount limit]),
                  foldl (\<lambda>s page. case get (page * limit) of
                            ApiOk count rs \<Rightarrow>
                              snd (processFn s rs page (ceil_div totalCount limit))
                          | ApiFailed err \<Rightarrow> s)
                        (snd (processFn st results 0 (ceil_div totalCount limit)))
                        [1..<ceil_div totalCount limit])
           \<and> sr_success res"
    by simp
next
  show "(case processPaginatedInBatches_loop get processFn limit totalPages pages (events, st) of
      (thrown, evs, st') \<Rightarrow> (thrown, st'))
   = (case processPaginatedInBatches_loop get processFn limit totalPages
           (filter (\<lambda>page. case get (page * limit) of
                              ApiOk count rs \<Rightarrow> True | ApiFailed err \<Rightarrow> False) pages)
           (events, st) of
      (thrown, evs, st') \<Rightarrow> (thrown, st'))"
    by (rule processPaginatedInBatches_loop_failed_pages)
qed

theorem C7_first_page_fatal_later_pages_skipped_witness:
  "down_source 0 = ApiFailed ''connect ECONNREFUSED''
   \<and> getAllPaginated down_source 100
       = Some (\<lparr>pr_success = False, pr_error = Some ''connect ECONNREFUSED'', pr_data = [],
                pr_totalCount = None, pr_fetchedCount = None\<rparr>, [Requested 0])
   \<and> processPaginatedInBatches down_source counting_fn 100 0
       = Some (\<lparr>sr_success = False, sr_error = Some ''connect ECONNREFUSED'',
                sr_totalPages = None, sr_totalRecords = None\<rparr>, [Requested 0], 0)
   \<and> flaky_source 0 = ApiOk 250 (take 100 (drop 0 [0..<250])) \<and> (0::nat) < 100
   \<and> (\<forall>s rs p t. fst (counting_fn s rs p t) = None)
   \<and> (\<exists>res. getAllPaginated flaky_source 100
           = Some (res, [Requested 0, Requested 100, Requested 200, Skipped 2])
         \<and> pr_success res
         \<and> pr_data res = take 100 (drop 0 [0..<250]) @ take 100 (drop 100 [0..<250]))
   \<and> (\<exists>res. processPaginatedInBatches flaky_source counting_fn 100 0
           = Some (res,
                   [Requested 0, Processed (take 100 (drop 0 [0..<250])) 0 3,
                    Requested 100, Processed (take 100 (drop 100 [0..<250])) 1 3,
                    Requested 200, Skipped 2], 200)
         \<and> sr_success res)"
proof -
  have down: "down_source 0 = ApiFailed ''connect ECONNREFUSED''"
    by (simp add: down_source_def)
  have first: "flaky_source 0 = ApiOk 250 (take 100 (drop 0 [0..<250])) \<and> (0::nat) < 100"
    by (simp add: flaky_source_def)
  have quiet: "\<forall>s rs p t. fst (counting_fn s rs p t) = None"
    by (simp add: counting_fn_def)
  have tp: "ceil_div 250 100 = 3" by (simp add: ceil_div_def)
  have pages: "[1..<3] = [1, 2::nat]" by (simp add: upt_rec)
  have p1: "flaky_source 100 = ApiOk 250 (take 100 (drop 100 [0..<250]))"
    and p2: "flaky_source 200 = ApiFailed ''timeout of 30000ms exceeded''"
    by (simp_all add: flaky_source_def)
  note fatal = C7_first_page_fatal_later_pages_skipped
    [of down_source "''connect ECONNREFUSED''" 100 counting_fn "0::nat" 0 "[]",
     THEN conjunct1, rule_format, OF down]
  note later = C7_first_page_fatal_later_pages_skipped
    [of flaky_source "[]" 100 counting_fn "0::nat" 250 "take 100 (drop 0 [0..<250])",
     THEN conjunct2, THEN conjunct1, rule_format, OF first, unfolded tp pages]
  from later quiet have stream: "\<exists>res. processPaginatedInBatches flaky_source counting_fn 100 0
           = Some (res,
                   [Requested 0, Processed (take 100 (drop 0 [0..<250])) 0 3,
                    Requested 100, Processed (take 100 (drop 100 [0..<250])) 1 3,
                    Requested 200, Skipped 2], 200)
         \<and> sr_success res"
    by (simp add: p1 p2 counting_fn_def)
  from later have all: "\<exists>res. getAllPaginated flaky_source 100
           = Some (res, [Requested 0, Requested 100, Requested 200, Skipped 2])
         \<and> pr_success res
         \<and> pr_data res = take 100 (drop 0 [0..<250]) @ take 100 (drop 100 [0..<250])"
    by (simp add: p1 p2)
  show ?thesis using down fatal first quiet all stream by blast
qed

text \<open>
  Claim C8. \<open>processPaginatedInBatches\<close> computes \<open>totalPages = \<lceil>count / limit\<rceil>\<close> from the
  count of the first response only: that value is reported in the result and passed to
  every call of the callback, whatever counts the later responses carry; the run requests
  the pages in order, each request following the callback on the page before, and the
  state returned is the caller's state after those calls, made in page order with that
  value.
  Against a source of 250 items served in pages of 100, with a callback that does not
  throw, the run is exactly: request offset 0, callback on the first 100 items, request
  offset 100, callback on the next 100, request offset 200, callback on the last 50;
  three callback calls, each finished before the next request, the state returned being
  the state left by the third call, which started from the state left by the second,
  which started from the state left by the first.
\<close>

theorem C8_streamPages_fixed_page_count:
  "(get 0 = ApiOk totalCount results \<and> 0 < limit
      \<and> (\<forall>s rs p t. fst (processFn s rs p t) = None) \<longrightarrow>
      (\<exists>res events.
          processPaginatedInBatches get processFn limit st
            = Some (res, events,
                    foldl (\<lambda>s page. case get (page * limit) of
                              ApiOk count rs \<Rightarrow>
                                snd (processFn s rs page (ceil_div totalCount limit))
                            | ApiFailed err \<Rightarrow> s)
                          (snd (processFn st results 0 (ceil_div totalCount limit)))
                          [1..<ceil_div totalCount limit])
        \<and> events
            = Requested 0 # Processed results 0 (ceil_div totalCount limit) #
              concat (map (\<lambda>page. case get (page * limit) of
                              ApiOk count rs \<Rightarrow>
                                [Requested (page * limit),
                                 Processed rs page (ceil_div totalCount limit)]
                            | ApiFailed err \<Rightarrow> [Requested (page * limit), Skipped page])
                          [1..<ceil_div totalCount limit])
        \<and> sr_totalPages res = Some (ceil_div totalCount limit)
        \<and> int (ceil_div totalCount limit) = \<lceil>real totalCount / real limit\<rceil>
        \<and> (\<forall>rs p t. Processed rs p t \<in> set events \<longrightarrow> t = ceil_div totalCount limit)))
 \<and> (length items = 250 \<and> (\<forall>s rs p t. fst (processFn s rs p t) = None) \<longrightarrow>
      (\<exists>res.
          processPaginatedInBatches (mock_source items 100) processFn 100 st
            = Some (res,
                    [Requested 0, Processed (take 100 items) 0 3,
                     Requested 100, Processed (take 100 (drop 100 items)) 1 3,
                     Requested 200, Processed (drop 200 items) 2 3],
                    snd (processFn
                          (snd (processFn
                                 (snd (processFn st (take 100 items) 0 3))
                                 (take 100 (drop 100 items)) 1 3))
                          (drop 200 items) 2 3))
        \<and> sr_success res
        \<and> map length [take 100 items, take 100 (drop 100 items), drop 200 items]
            = [100, 100, 50]))"
proof (intro conjI impI)
  assume h: "get 0 = ApiOk totalCount results \<and> 0 < limit
      \<and> (\<forall>s rs p t. fst (processFn s rs p t) = None)"
  let ?tp = "ceil_div totalCount limit"
  let ?events = "Requested 0 # Processed results 0 ?tp #
                  concat (map (\<lambda>page. case get (page * limit) of
                                  ApiOk count rs \<Rightarrow>
                                    [Requested (page * limit), Processed rs page ?tp]
                                | ApiFailed err \<Rightarrow> [Requested (page * limit), Skipped page])
                              [1..<?tp])"
  let ?st' = "foldl (\<lambda>s page. case get (page * limit) of
                              ApiOk count rs \<Rightarrow> snd (processFn s rs page ?tp)
                            | ApiFailed err \<Rightarrow> s)
                          (snd (processFn st results 0 ?tp)) [1..<?tp]"
  from processPaginatedInBatches_quiet [of get totalCount results limit processFn st] h
  have run: "processPaginatedInBatches get processFn limit st
           = Some (\<lparr>sr_success = True, sr_error = None, sr_totalPages = Some ?tp,
                    sr_totalRecords = Some totalCount\<rparr>, ?events, ?st')"
    by blast
  have fixed: "\<forall>rs p t. Processed rs p t \<in> set ?events \<longrightarrow> t = ?tp"
  proof (intro allI impI)
    fix rs p t
    assume "Processed rs p t \<in> set ?events"
    then have "t = ?tp \<or> (\<exists>page. Processed rs p t \<in> set (case get (page * limit) of
                                  ApiOk count rs \<Rightarrow>
                                    [Requested (page * limit), Processed rs page ?tp]
                                | ApiFailed err \<Rightarrow> [Requested (page * limit), Skipped page]))"
      by auto
    then show "t = ?tp"
    proof
      assume "t = ?tp" then show ?thesis .
    next
      assume "\<exists>page. Processed rs p t \<in> set (case get (page * limit) of
                                  ApiOk count rs \<Rightarrow>
                                    [Requested (page * limit), Processed rs page ?tp]
                                | ApiFailed err \<Rightarrow> [Requested (page * limit), Skipped page])"
      then obtain page where m: "Processed rs p t \<in> set (case get (page * limit) of
                                  ApiOk count rs \<Rightarrow>
                                    [Requested (page * limit), Processed rs page ?tp]
                                | ApiFailed err \<Rightarrow> [Requested (page * limit), Skipped page])"
        by blast
      then show ?thesis by (cases "get (page * limit)") auto
    qed
  qed
  have ceil: "int ?tp = \<lceil>real totalCount / real limit\<rceil>"
    using h by (simp add: ceil_div_ceiling)
  have "processPaginatedInBatches get processFn limit st
           = Some (\<lparr>sr_success = True, sr_error = None, sr_totalPages = Some ?tp,
                    sr_totalRecords = Some totalCount\<rparr>, ?events, ?st')
        \<and> ?events = ?events
        \<and> sr_totalPages \<lparr>sr_success = True, sr_error = None, sr_totalPages = Some ?tp,
                    sr_totalRecords = Some totalCount\<rparr> = Some ?tp
        \<and> int ?tp = \<lceil>real totalCount / real limit\<rceil>
        \<and> (\<forall>rs p t. Processed rs p t \<in> set ?events \<longrightarrow> t = ?tp)"
    using run fixed ceil by simp
  then show "\<exists>res events.
          processPaginatedInBatches get processFn limit st = Some (res, events, ?st')
        \<and> events = ?events
        \<and> sr_totalPages res = Some ?tp
        \<and> int ?tp = \<lceil>real totalCount / real limit\<rceil>
        \<and> (\<forall>rs p t. Processed rs p t \<in> set events \<longrightarrow> t = ?tp)"
    by blast
next
  assume h: "length items = 250 \<and> (\<forall>s rs p t. fst (processFn s rs p t) = None)"
  have tp: "ceil_div 250 100 = 3" by (simp add: ceil_div_def)
  have pages: "[1..<3] = [1, 2::nat]" by (simp add: upt_rec)
  have first: "mock_source items 100 0 = ApiOk 250 (take 100 items)"
    using h by (simp add: mock_source_def)
  from processPaginatedInBatches_quiet
         [of "mock_source items 100" 250 "take 100 items" 100 processFn st] first h
  have run: "processPaginatedInBatches (mock_source items 100) processFn 100 st
           = Some (\<lparr>sr_success = True, sr_error = None, sr_totalPages = Some 3,
                    sr_totalRecords = Some 250\<rparr>,
                  Requested 0 # Processed (take 100 items) 0 3 #
                  concat (map (\<lambda>page. case mock_source items 100 (page * 100) of
                                  ApiOk count rs \<Rightarrow>
                                    [Requested (page * 100), Processed rs page 3]
                                | ApiFailed err \<Rightarrow> [Requested (page * 100), Skipped page])
                              [1, 2]),
                  foldl (\<lambda>s page. case mock_source items 100 (page * 100) of
                            ApiOk count rs \<Rightarrow> snd (processFn s rs page 3)
                          | ApiFailed err \<Rightarrow> s)
                        (snd (processFn st (take 100 items) 0 3)) [1, 2])"
    unfolding tp pages by auto
  have last: "take 100 (drop 200 items) = drop 200 items" using h by simp
  show "\<exists>res.
          processPaginatedInBatches (mock_source items 100) processFn 100 st
            = Some (res,
                    [Requested 0, Processed (take 100 items) 0 3,
                     Requested 100, Processed (take 100 (drop 100 items)) 1 3,
                     Requested 200, Processed (drop 200 items) 2 3],
                    snd (processFn
                          (snd (processFn
                                 (snd (processFn st (take 100 items) 0 3))
                                 (take 100 (drop 100 items)) 1 3))
                          (drop 200 items) 2 3))
        \<and> sr_success res
        \<and> map length [take 100 items, take 100 (drop 100 items), drop 200 items]
            = [100, 100, 50]"
    using run h last by (simp add: mock_source_def)
qed

theorem C8_streamPages_fixed_page_count_witness:
  "mock_source [0..<250] 100 0 = ApiOk 250 (take 100 [0..<250]) \<and> (0::nat) < 100
   \<and> (\<forall>s rs p t. fst (counting_fn s rs p t) = None)
   \<and> length [0..<250] = 250
   \<and> (\<exists>res events st'.
          processPaginatedInBatches (mock_source [0..<250] 100) counting_fn 100 0
            = Some (res, events, st')
        \<and> sr_totalPages res = Some (ceil_div 250 100)
        \<and> (\<forall>rs p t. Processed rs p t \<in> set events \<longrightarrow> t = ceil_div 250 100))
   \<and> (\<exists>res.
          processPaginatedInBatches (mock_source [0..<250] 100) counting_fn 100 0
            = Some (res,
                    [Requested 0, Processed (take 100 [0..<250]) 0 3,
                     Requested 100, Processed (take 100 (drop 100 [0..<250])) 1 3,
                     Requested 200, Processed (drop 200 [0..<250]) 2 3],
                    250)
        \<and> sr_success res)"
proof -
  have quiet: "\<forall>s rs p t. fst (counting_fn s rs p t) = None"
    by (simp add: counting_fn_def)
  have len: "length [0..<250] = 250" by simp
  have first: "mock_source [0..<250] 100 0 = ApiOk 250 (take 100 [0..<250]) \<and> (0::nat) < 100"
    unfolding mock_source_def using len by simp
  note inst = C8_streamPages_fixed_page_count
    [of "mock_source [0..<250] 100" 250 "take 100 [0..<250]" 100 counting_fn "0::nat"
        "[0..<250]"]
  from inst first quiet have general: "\<exists>res events st'.
          processPaginatedInBatches (mock_source [0..<250] 100) counting_fn 100 0
            = Some (res, events, st')
        \<and> sr_totalPages res = Some (ceil_div 250 100)
        \<and> (\<forall>rs p t. Processed rs p t \<in> set events \<longrightarrow> t = ceil_div 250 100)"
    by blast
  have count: "snd (counting_fn
                 (snd (counting_fn
                        (snd (counting_fn 0 (take 100 [0..<250]) 0 3))
                        (take 100 (drop 100 [0..<250])) 1 3))
                 (drop 200 [0..<250]) 2 3) = 250"
    by (simp add: counting_fn_def)
  from inst len quiet have "\<exists>res.
          processPaginatedInBatches (mock_source [0..<250] 100) counting_fn 100 0
            = Some (res,
                    [Requested 0, Processed (take 100 [0..<250]) 0 3,
                     Requested 100, Processed (take 100 (drop 100 [0..<250])) 1 3,
                     Requested 200, Processed (drop 200 [0..<250]) 2 3],
                    snd (counting_fn
                          (snd (counting_fn
                                 (snd (counting_fn 0 (take 100 [0..<250]) 0 3))
                                 (take 100 (drop 100 [0..<250])) 1 3))
                          (drop 200 [0..<250]) 2 3))
        \<and> sr_success res"
    by blast
  then have specific: "\<exists>res.
          processPaginatedInBatches (mock_source [0..<250] 100) counting_fn 100 0
            = Some (res,
                    [Requested 0, Processed (take 100 [0..<250]) 0 3,
                     Requested 100, Processed (take 100 (drop 100 [0..<250])) 1 3,
                     Requested 200, Processed (drop 200 [0..<250]) 2 3],
                    250)
        \<and> sr_success res"
    unfolding count .
  show ?thesis using first quiet len general specific by blast
qed

section \<open>The reconciliation engine: validation and cache\<close>

lemma check_result_False_iff: "check_result result = Inr False \<longleftrightarrow> reports_error result"
  by (auto simp: check_result_def reports_error_def split: sum.splits if_splits)

lemma check_result_True_iff:
  "check_result result = Inr True \<longleftrightarrow>
     \<not> reports_error result
   \<and> (\<exists>mapper missing.
         read_prop result ''mapper'' = Inr mapper \<and> js_truthy mapper \<and> typeof_object mapper
       \<and> read_prop result ''missing'' = Inr missing \<and> Array_isArray missing)"
  by (auto simp: check_result_def reports_error_def read_prop_def
           split: sum.splits if_splits jsval.splits)

lemma mapData_hit:
  assumes "generateCacheKey entityType apiResult dbResult = Inr cacheKey"
    and "mapperCache st cacheKey = Some cached"
  shows "mapData ask st entityType apiResult dbResult options = (Returned cached, st)"
  using assms by (simp add: mapData_def)

lemma mapData_miss:
  assumes "generateCacheKey entityType apiResult dbResult = Inr cacheKey"
    and "mapperCache st cacheKey = None"
  shows "mapData ask st entityType apiResult dbResult options =
     (let request = \<lparr>rq_entityType = entityType, rq_apiResult = apiResult,
                     rq_dbResult = dbResult, rq_options = options\<rparr>;
          st1 = st\<lparr>oracleCalls := oracleCalls st @ [request]\<rparr>
      in case ask (length (oracleCalls st)) request of
           Inl e \<Rightarrow> (AI_MAPPING_ERROR e, st1)
         | Inr result \<Rightarrow>
             (case check_result result of
                Inl e \<Rightarrow> (AI_MAPPING_ERROR e, st1)
              | Inr False \<Rightarrow> (Returned result, st1)
              | Inr True \<Rightarrow>
                  (Returned result,
                   st1\<lparr>mapperCache := (mapperCache st1)(cacheKey \<mapsto> result)\<rparr>)))"
  using assms by (simp add: mapData_def)

lemma mapData_Returned_cached:
  assumes "mapData ask st entityType apiResult dbResult options = (Returned r, st1)"
    and "\<not> reports_error r"
  shows "\<exists>cacheKey. generateCacheKey entityType apiResult dbResult = Inr cacheKey
                 \<and> mapperCache st1 cacheKey = Some r"
proof (cases "generateCacheKey entityType apiResult dbResult")
  case (Inl e)
  with assms show ?thesis by (simp add: mapData_def)
next
  case (Inr cacheKey)
  show ?thesis
  proof (cases "mapperCache st cacheKey")
    case (Some cached)
    with assms Inr show ?thesis by (simp add: mapData_def)
  next
    case None
    show ?thesis
      using assms(1) assms(2) [unfolded check_result_False_iff [symmetric]]
      unfolding mapData_miss [OF Inr None]
      by (auto simp: Let_def Inr split: sum.splits bool.splits)
  qed
qed

text \<open>
  Claim C2, as stated, fails: an answer whose \<open>mapper\<close> maps a source id to the string
  \<open>Ruiz\<close>, which no reading of "coercible to the target id type" accepts, is returned to
  the caller as a mapping.
\<close>

theorem C2_mapper_values_unchecked_counterexample:
  "\<not> spec_valid_result careless_mapping
   \<and> fst (mapData careless_oracle fresh_mapper ''doctor'' api_doctors db_doctors
             default_options)
     = Returned careless_mapping"
  by code_simp

text \<open>
  Claim C2, amended. On a cache miss, whatever the oracle answers, \<open>mapData\<close> returns
  a result and throws nothing: an error thrown by the call or the parsing is returned as an
  \<open>AI_MAPPING_ERROR\<close> result; an answer that reports an error of the oracle is returned
  as it is; any other answer is returned and cached exactly when its \<open>mapper\<close> is truthy
  and of type object (an object or an array) and its \<open>missing\<close> is an array, and is
  otherwise turned into an \<open>AI_MAPPING_ERROR\<close> result, nothing being cached. The values
  inside \<open>mapper\<close> take no part in the decision.
\<close>

theorem C2_structure_checks_amended:
  assumes "generateCacheKey entityType apiResult dbResult = Inr cacheKey"
    and "mapperCache st cacheKey = None"
  shows "(let request = \<lparr>rq_entityType = entityType, rq_apiResult = apiResult,
                         rq_dbResult = dbResult, rq_options = options\<rparr>;
              st1 = st\<lparr>oracleCalls := oracleCalls st @ [request]\<rparr>;
              out = mapData ask st entityType apiResult dbResult options
          in case ask (length (oracleCalls st)) request of
               Inl e \<Rightarrow> out = (AI_MAPPING_ERROR e, st1)
             | Inr result \<Rightarrow>
                 if reports_error result then out = (Returned result, st1)
                 else if (\<exists>mapper missing.
                            read_prop result ''mapper'' = Inr mapper
                          \<and> js_truthy mapper \<and> typeof_object mapper
                          \<and> read_prop result ''missing'' = Inr missing
                          \<and> Array_isArray missing)
                 then out = (Returned result,
                             st1\<lparr>mapperCache := (mapperCache st)(cacheKey \<mapsto> result)\<rparr>)
                 else (\<exists>message. out = (AI_MAPPING_ERROR message, st1)))"
proof -
  let ?request = "\<lparr>rq_entityType = entityType, rq_apiResult = apiResult,
                    rq_dbResult = dbResult, rq_options = options\<rparr>"
  show ?thesis
  proof (cases "ask (length (oracleCalls st)) ?request")
    case (Inl e)
    then show ?thesis by (simp add: mapData_miss [OF assms] Let_def)
  next
    case (Inr result)
    show ?thesis
    proof (cases "check_result result")
      case (Inl message)
      then have "\<not> reports_error result" "check_result result \<noteq> Inr True"
        using check_result_False_iff [of result] by auto
      with Inl Inr show ?thesis
        unfolding check_result_True_iff
        by (simp add: mapData_miss [OF assms] Let_def)
    next
      case ok: (Inr passed)
      show ?thesis
      proof (cases passed)
        case True
        with ok have "check_result result = Inr True" by simp
        with Inr show ?thesis
          using check_result_True_iff [of result]
          by (simp add: mapData_miss [OF assms] Let_def)
      next
        case False
        with ok have "check_result result = Inr False" by simp
        with Inr show ?thesis
          using check_result_False_iff [of result]
          by (simp add: mapData_miss [OF assms] Let_def)
      qed
    qed
  qed
qed

theorem C2_structure_checks_amended_witness:
  "generateCacheKey ''doctor'' api_doctors db_doctors = Inr ''doctor_[3,7]_[41,42]''
   \<and> mapperCache fresh_mapper ''doctor_[3,7]_[41,42]'' = None
   \<and> mapData shapeless_oracle fresh_mapper ''doctor'' api_doctors db_doctors default_options
     = (AI_MAPPING_ERROR ''Invalid mapper structure in AI response'',
        fresh_mapper\<lparr>oracleCalls := oracleCalls fresh_mapper @
           [\<lparr>rq_entityType = ''doctor'', rq_apiResult = api_doctors,
             rq_dbResult = db_doctors, rq_options = default_options\<rparr>]\<rparr>)"
proof -
  let ?request = "\<lparr>rq_entityType = ''doctor'', rq_apiResult = api_doctors,
                    rq_dbResult = db_doctors, rq_options = default_options\<rparr>"
  let ?answer = "JObj [(''mapper'', JStr ''7 -> 41''), (''missing'', JArr [])]"
  have key: "generateCacheKey ''doctor'' api_doctors db_doctors = Inr ''doctor_[3,7]_[41,42]''"
    by code_simp
  have miss: "mapperCache fresh_mapper ''doctor_[3,7]_[41,42]'' = None"
    by (simp add: fresh_mapper_def)
  have answer: "shapeless_oracle (length (oracleCalls fresh_mapper)) ?request = Inr ?answer"
    by (simp add: shapeless_oracle_def)
  have quiet: "\<not> reports_error ?answer"
    by (simp add: reports_error_def read_prop_def get_prop_def js_truthy_def)
  have bad: "\<not> (\<exists>mapper missing.
                 read_prop ?answer ''mapper'' = Inr mapper
               \<and> js_truthy mapper \<and> typeof_object mapper
               \<and> read_prop ?answer ''missing'' = Inr missing \<and> Array_isArray missing)"
    by (simp add: read_prop_def get_prop_def typeof_object_def)
  have msg: "fst (mapData shapeless_oracle fresh_mapper ''doctor'' api_doctors db_doctors
                    default_options)
             = AI_MAPPING_ERROR ''Invalid mapper structure in AI response''"
    by code_simp
  note inst = C2_structure_checks_amended [OF key miss, of default_options shapeless_oracle]
  have "\<exists>message.
    mapData shapeless_oracle fresh_mapper ''doctor'' api_doctors db_doctors default_options
     = (AI_MAPPING_ERROR message,
        fresh_mapper\<lparr>oracleCalls := oracleCalls fresh_mapper @ [?request]\<rparr>)"
    using inst quiet bad by (simp only: Let_def answer sum.case if_False)
  then obtain message where
    "mapData shapeless_oracle fresh_mapper ''doctor'' api_doctors db_doctors default_options
     = (AI_MAPPING_ERROR message,
        fresh_mapper\<lparr>oracleCalls := oracleCalls fresh_mapper @ [?request]\<rparr>)"
    by blast
  with msg key miss show ?thesis by simp
qed

text \<open>
  Claim C3, as stated, fails: when the oracle cannot be reached at the first call, that
  call returns an error result and caches nothing, and the second call, with the very
  same entity type and collections, asks the oracle again.
\<close>

theorem C3_error_result_not_cached_counterexample:
  "fst (mapData recovering_oracle fresh_mapper ''doctor'' api_doctors db_doctors
          default_options)
     = AI_MAPPING_ERROR ''Connection error.''
   \<and> length (oracleCalls (snd (mapData recovering_oracle fresh_mapper ''doctor''
                                  api_doctors db_doctors default_options))) = 1
   \<and> fst (mapData recovering_oracle
            (snd (mapData recovering_oracle fresh_mapper ''doctor'' api_doctors db_doctors
                    default_options))
            ''doctor'' api_doctors db_doctors default_options)
     = Returned doctor_mapping
   \<and> length (oracleCalls (snd (mapData recovering_oracle
            (snd (mapData recovering_oracle fresh_mapper ''doctor'' api_doctors db_doctors
                    default_options))
            ''doctor'' api_doctors db_doctors default_options))) = 2"
  by code_simp

text \<open>
  Claim C3, amended. When a call of \<open>mapData\<close> has returned a mapping (a result that does
  not report an error), a second call with the same entity type and the same two
  collections, whatever its options, returns the identical object and leaves the module
  state as it was: the oracle is not asked again. Error results are never cached.
\<close>

theorem C3_cache_hit_after_mapping:
  assumes "mapData ask st entityType apiResult dbResult options = (Returned r, st1)"
    and "\<not> reports_error r"
  shows "mapData ask st1 entityType apiResult dbResult options' = (Returned r, st1)
       \<and> oracleCalls (snd (mapData ask st1 entityType apiResult dbResult options'))
           = oracleCalls st1"
proof -
  from mapData_Returned_cached [OF assms] obtain cacheKey where
    "generateCacheKey entityType apiResult dbResult = Inr cacheKey"
    "mapperCache st1 cacheKey = Some r" by blast
  then have "mapData ask st1 entityType apiResult dbResult options' = (Returned r, st1)"
    by (rule mapData_hit)
  then show ?thesis by simp
qed

theorem C3_cache_hit_after_mapping_witness:
  "fst (mapData good_oracle fresh_mapper ''doctor'' api_doctors db_doctors default_options)
     = Returned doctor_mapping
   \<and> \<not> reports_error doctor_mapping
   \<and> mapData good_oracle
        (snd (mapData good_oracle fresh_mapper ''doctor'' api_doctors db_doctors
                default_options))
        ''doctor'' api_doctors db_doctors default_options
     = (Returned doctor_mapping,
        snd (mapData good_oracle fresh_mapper ''doctor'' api_doctors db_doctors
               default_options))
   \<and> length (oracleCalls (snd (mapData good_oracle fresh_mapper ''doctor'' api_doctors
                                  db_doctors default_options))) = 1"
proof -
  let ?first = "mapData good_oracle fresh_mapper ''doctor'' api_doctors db_doctors
                  default_options"
  have r: "fst ?first = Returned doctor_mapping" by code_simp
  have n: "length (oracleCalls (snd ?first)) = 1" by code_simp
  have q: "\<not> reports_error doctor_mapping" by code_simp
  have first: "?first = (Returned doctor_mapping, snd ?first)"
    using r by (metis prod.collapse)
  from C3_cache_hit_after_mapping [OF first q, of default_options] r n q
  show ?thesis by simp
qed

text \<open>
  Claim C10, as stated, fails for the same reason as C3: the first call may return an
  error reported by the oracle, which is not cached, and the second call, on records with
  the same ids and first fields, then asks the oracle.
\<close>

theorem C10_no_mapping_cached_counterexample:
  "api_ids api_doctors_renamed = Inr [JNum 3, JNum 7]
   \<and> api_ids api_doctors = Inr [JNum 7, JNum 3]
   \<and> js_sort [JNum 3, JNum 7] = js_sort [JNum 7, JNum 3]
   \<and> db_first_values db_doctors_renamed = Inr [JNum 42, JNum 41]
   \<and> db_first_values db_doctors = Inr [JNum 41, JNum 42]
   \<and> js_sort [JNum 42, JNum 41] = js_sort [JNum 41, JNum 42]
   \<and> fst (mapData hesitant_oracle fresh_mapper ''doctor'' api_doctors db_doctors
             default_options)
     = Returned (JObj [(''error'', JStr ''NO_MATCH''), (''message'', JStr ''cannot map'')])
   \<and> fst (mapData hesitant_oracle
            (snd (mapData hesitant_oracle fresh_mapper ''doctor'' api_doctors db_doctors
                    default_options))
            ''doctor'' api_doctors_renamed db_doctors_renamed default_options)
     = Returned doctor_mapping
   \<and> length (oracleCalls (snd (mapData hesitant_oracle
            (snd (mapData hesitant_oracle fresh_mapper ''doctor'' api_doctors db_doctors
                    default_options))
            ''doctor'' api_doctors_renamed db_doctors_renamed default_options))) = 2"
  by code_simp

text \<open>
  Claim C10, amended. The cache key is a function of the entity type, the sorted \<open>id\<close>
  values of the source items and the sorted first-field values of the target items:
  two calls that agree on these three have the same key. So when a call has returned a
  mapping (a result that does not report an error), a later call with the same entity
  type, on collections with the same sorted ids and the same sorted first fields, returns
  that mapping from the cache without asking the oracle, however the records differ in
  their other fields and whatever its options.
\<close>

theorem C10_cache_key_ignores_other_fields:
  assumes "mapData ask st entityType apiResult dbResult options = (Returned r, st1)"
    and "\<not> reports_error r"
    and "api_ids apiResult = Inr ids" and "api_ids apiResult' = Inr ids'"
    and "js_sort ids' = js_sort ids"
    and "db_first_values dbResult = Inr firsts" and "db_first_values dbResult' = Inr firsts'"
    and "js_sort firsts' = js_sort firsts"
  shows "generateCacheKey entityType apiResult' dbResult'
           = generateCacheKey entityType apiResult dbResult
       \<and> mapData ask st1 entityType apiResult' dbResult' options' = (Returned r, st1)
       \<and> oracleCalls (snd (mapData ask st1 entityType apiResult' dbResult' options'))
           = oracleCalls st1"
proof -
  have same: "generateCacheKey entityType apiResult' dbResult'
           = generateCacheKey entityType apiResult dbResult"
    using assms(3-8) by (simp add: generateCacheKey_def)
  from mapData_Returned_cached [OF assms(1,2)] obtain cacheKey where
    "generateCacheKey entityType apiResult dbResult = Inr cacheKey"
    "mapperCache st1 cacheKey = Some r" by blast
  with same have "mapData ask st1 entityType apiResult' dbResult' options' = (Returned r, st1)"
    by (simp add: mapData_hit)
  with same show ?thesis by simp
qed

theorem C10_cache_key_ignores_other_fields_witness:
  "fst (mapData good_oracle fresh_mapper ''doctor'' api_doctors db_doctors default_options)
     = Returned doctor_mapping
   \<and> \<not> reports_error doctor_mapping
   \<and> api_ids api_doctors = Inr [JNum 7, JNum 3]
   \<and> api_ids api_doctors_renamed = Inr [JNum 3, JNum 7]
   \<and> js_sort [JNum 3, JNum 7] = js_sort [JNum 7, JNum 3]
   \<and> db_first_values db_doctors = Inr [JNum 41, JNum 42]
   \<and> db_first_values db_doctors_renamed = Inr [JNum 42, JNum 41]
   \<and> js_sort [JNum 42, JNum 41] = js_sort [JNum 41, JNum 42]
   \<and> mapData good_oracle
        (snd (mapData good_oracle fresh_mapper ''doctor'' api_doctors db_doctors
                default_options))
        ''doctor'' api_doctors_renamed db_doctors_renamed default_options
     = (Returned doctor_mapping,
        snd (mapData good_oracle fresh_mapper ''doctor'' api_doctors db_doctors
               default_options))"
proof -
  let ?first = "mapData good_oracle fresh_mapper ''doctor'' api_doctors db_doctors
                  default_options"
  have r: "fst ?first = Returned doctor_mapping" by code_simp
  have q: "\<not> reports_error doctor_mapping" by code_simp
  have a: "api_ids api_doctors = Inr [JNum 7, JNum 3]"
    and a': "api_ids api_doctors_renamed = Inr [JNum 3, JNum 7]"
    and sa: "js_sort [JNum 3, JNum 7] = js_sort [JNum 7, JNum 3]"
    and d: "db_first_values db_doctors = Inr [JNum 41, JNum 42]"
    and d': "db_first_values db_doctors_renamed = Inr [JNum 42, JNum 41]"
    and sd: "js_sort [JNum 42, JNum 41] = js_sort [JNum 41, JNum 42]"
    by code_simp+
  have first: "?first = (Returned doctor_mapping, snd ?first)"
    using r by (metis prod.collapse)
  from C10_cache_key_ignores_other_fields [OF first q a a' sa d d' sd, of default_options]
    r q a a' sa d d' sd
  show ?thesis by simp
qed

section \<open>The linking step of POST /citas\<close>

text \<open>
  When the primary record of an appointment is inserted and read back, its secondary
  record is inserted with the generated key of the primary row as its reference.
\<close>

lemma citas_secondary_linked_to_primary_found:
  "map_option (\<lambda>(outcome, st). (outcome, map snd (committed (db st))))
     (citas_load_page no_fault primary_found (JNum 1) (JNum 1) fresh_page_state
        page_of_one_appointment)
   = Some (None, [[JNum 12, JNum 501, JNum 8, JNull], [JNum 12, JNum 501, JNum 9, JNum 9001]])"
  by code_simp

text \<open>
  Claim C1 describes what the sibling flows do (the loads of receipts and of budgets skip
  a dependent record whose parent is not found, with a warning); the handler of
  \<open>POST /citas\<close> does not. On a page of one appointment with two services, whose primary
  record is rejected by the store and is therefore absent from the rows read back, the
  callback returns normally; the secondary record is handed to \<open>insertBatch\<close> with
  \<open>id_cita_reference\<close> null, is committed, and is counted among the inserted records; the
  only error recorded is that of the primary record, and no warning counter moves. A
  null \<open>id_cita_reference\<close> is the mark of a primary row (it is what the read-back query
  selects on), so the orphan is stored as a primary appointment.
\<close>

theorem C1_orphan_secondary_inserted:
  "citas_load_page fault_in_first_insert nothing_found (JNum 1) (JNum 1) fresh_page_state
     page_of_one_appointment
   = Some (None,
       \<lparr>globalStats =
          \<lparr>totalRecords = 2, totalBatches = 2, successfulBatches = 1, failedBatches = 1,
           insertedRecords = 1,
           errors = [\<lparr>be_batch = 1, be_offset = 0, be_error = Some ''Data too long'',
                      be_code = Some ''ER_DATA_TOO_LONG''\<rparr>],
           warnings = \<lparr>missingPatients = 0, missingDoctors = 0, missingTreatments = 0,
                       missingSpaces = 0\<rparr>\<rparr>,
        db = \<lparr>committed =
                [(\<lparr>q_table = ''citas'',
                   q_columns = [''id_paciente'', ''old_id'', ''id_tratamiento'',
                                ''id_cita_reference''],
                   q_rows = 1\<rparr>,
                  [JNum 12, JNum 501, JNum 9, JNull])],
              pending = [], leased = 0,
              oplog =
                [GetConnection, BeginTransaction,
                 Execute \<lparr>q_table = ''citas'',
                          q_columns = [''id_paciente'', ''old_id'', ''id_tratamiento'',
                                       ''id_cita_reference''],
                          q_rows = 1\<rparr>
                         [JNum 12, JNum 501, JNum 8, JNull],
                 Rollback, Release,
                 GetConnection, BeginTransaction,
                 Execute \<lparr>q_table = ''citas'',
                          q_columns = [''id_paciente'', ''old_id'', ''id_tratamiento'',
                                       ''id_cita_reference''],
                          q_rows = 1\<rparr>
                         [JNum 12, JNum 501, JNum 9, JNull],
                 Commit, Release]\<rparr>,
        loads =
          [\<lparr>cc_batch = 1, cc_offset = 0,
            cc_records = [[(''id_paciente'', JNum 12), (''old_id'', JNum 501),
                           (''id_tratamiento'', JNum 8), (''id_cita_reference'', JNull)]],
            cc_result = \<lparr>ib_success = False, ib_inserted = 0, ib_batch = Some 1,
                          ib_message = None, ib_error = Some ''Data too long'',
                          ib_code = Some ''ER_DATA_TOO_LONG''\<rparr>\<rparr>,
           \<lparr>cc_batch = 1, cc_offset = 0,
            cc_records = [[(''id_paciente'', JNum 12), (''old_id'', JNum 501),
                           (''id_tratamiento'', JNum 9), (''id_cita_reference'', JNull)]],
            cc_result = \<lparr>ib_success = True, ib_inserted = 1, ib_batch = Some 1,
                          ib_message = None, ib_error = None, ib_code = None\<rparr>\<rparr>]\<rparr>)"
  by code_simp


end
